theory Spec2Isabelle
  imports Complex_Main "HOL-Library.Word"
begin

section \<open>JavaScript values\<close>

text \<open>
  The core of flowform is TypeScript. Its values are modelled as the JavaScript runtime has
  them. A string is a sequence of UTF-16 code units; a literal of the source is written
  \<open>js ''...''\<close>. A number is NaN, an infinity or a finite value; a finite value is kept as
  the exact rational it denotes (rounding to binary64 is not modelled). A \<open>Date\<close> holds a
  time value in milliseconds since the epoch, or no time value (an invalid date).
\<close>

type_synonym jsstring = "16 word list"

definition js :: "string \<Rightarrow> jsstring" where
  "js s = map of_char s"

datatype jsnum = NaN | NegInf | Fin rat | PosInf

type_synonym Date = "int option"

datatype jsvalue =
    Undefined
  | Null
  | Bool bool
  | Num jsnum
  | Str jsstring
  | DateV Date
  | Arr "jsvalue list"
  | Obj "(jsstring \<times> jsvalue) list"

text \<open>
  What the source throws: \<open>ClientError\<close> (message, statusCode, errorCode, context) of
  \<open>types/errors.ts\<close>, the runtime's \<open>TypeError\<close>, and whatever the injected model
  client rejects with, which the orchestrator never catches.
\<close>

datatype error =
    ClientError (message: jsstring) (statusCode: nat) (errorCode: jsstring)
      (error_context: "(jsstring \<times> jsvalue) list")
  | TypeError
  | Rejected jsstring

subsection \<open>Decimal numerals\<close>

definition digit_char :: "nat \<Rightarrow> 16 word" where
  "digit_char d = of_nat (48 + d)"

fun decimal :: "nat \<Rightarrow> jsstring" where
  "decimal n = (if n < 10 then [digit_char n] else decimal (n div 10) @ [digit_char (n mod 10)])"

declare decimal.simps [simp del]

subsection \<open>Own enumerable properties\<close>

text \<open>
  \<open>Object.keys\<close> and \<open>Object.entries\<close>. An object is kept as the list of its own
  properties in enumeration order. An array and a string have their indices as keys;
  a number, a boolean and a date have no own enumerable property; \<open>null\<close> and
  \<open>undefined\<close> cannot be converted to an object, which is a \<open>TypeError\<close>.
\<close>

definition index_keys :: "nat \<Rightarrow> jsstring list" where
  "index_keys n = map decimal [0..<n]"

fun Object_entries :: "jsvalue \<Rightarrow> error + (jsstring \<times> jsvalue) list" where
  "Object_entries Undefined = Inl TypeError"
| "Object_entries Null = Inl TypeError"
| "Object_entries (Bool b) = Inr []"
| "Object_entries (Num n) = Inr []"
| "Object_entries (Str s) = Inr (zip (index_keys (length s)) (map (\<lambda>c. Str [c]) s))"
| "Object_entries (DateV d) = Inr []"
| "Object_entries (Arr vs) = Inr (zip (index_keys (length vs)) vs)"
| "Object_entries (Obj ps) = Inr ps"

definition Object_keys :: "jsvalue \<Rightarrow> error + jsstring list" where
  "Object_keys v = (case Object_entries v of Inl e \<Rightarrow> Inl e | Inr ps \<Rightarrow> Inr (map fst ps))"

section \<open>The data model (\<open>types/\<close>)\<close>

text \<open>
  The records follow \<open>types/field.ts\<close>, \<open>types/form.ts\<close>, \<open>types/session.ts\<close>,
  \<open>types/llm.ts\<close>, \<open>types/orchestrator.ts\<close> and \<open>types/validation.ts\<close>. A field
  name that several interfaces share, or that is a constant of HOL (\<open>id\<close>, \<open>min\<close>,
  \<open>max\<close>), carries the interface as a prefix. An optional property is an \<open>option\<close>.
  \<open>order\<close> is an integer (the source documents it as a 0-based index).
\<close>

datatype FieldType = TEXT | EMAIL | PHONE | NUMBER | DATE | ENUM | LONG_TEXT

record ValidationRule =
  rule_min :: "jsnum option"
  rule_max :: "jsnum option"
  pattern :: "jsstring option"
  options :: "jsstring list option"

record FormField =
  field_id :: jsstring
  field_name :: jsstring
  label :: jsstring
  type :: FieldType
  required :: bool
  validation :: "ValidationRule option"
  order :: int
  field_description :: "jsstring option"

record FormDefinition =
  form_id :: jsstring
  form_name :: jsstring
  form_description :: "jsstring option"
  form_fields :: "FormField list"
  createdAt :: Date
  updatedAt :: Date

datatype SessionStatus = ACTIVE | COMPLETED | ABANDONED

datatype TurnRole = USER | ASSISTANT

record SessionTurn =
  turn_role :: TurnRole
  turn_content :: jsstring
  timestamp :: Date

record SessionField =
  fieldId :: jsstring
  "value" :: jsvalue
  collectedAt :: Date

record Session =
  session_id :: jsstring
  formId :: jsstring
  status :: SessionStatus
  turns :: "SessionTurn list"
  session_fields :: "SessionField list"
  startedAt :: Date
  completedAt :: "Date option"

datatype ValidationResult = Valid | Invalid jsstring

datatype LlmRole = System | User | Assistant

record LlmMessage =
  role :: LlmRole
  content :: jsstring

record Usage =
  promptTokens :: nat
  completionTokens :: nat
  totalTokens :: nat

record LlmResponse =
  response_content :: jsstring
  usage :: "Usage option"

type_synonym LlmClient = "LlmMessage list \<Rightarrow> error + LlmResponse"

record OrchestratorResult =
  botResponse :: jsvalue
  extractedFields :: jsvalue
  isComplete :: bool
  nextField :: "jsstring option"

section \<open>The runtime\<close>

text \<open>
  The built-in operations the source calls, after ECMA-262. What the standard leaves to
  the implementation, or what depends on the local time zone or on binary64 rounding, is
  a parameter of the model, so that every theorem holds for every implementation:
  \<^item> \<open>dateParseOther\<close>: \<open>Date.parse\<close> on a string that is not a valid date-only
    form \<open>YYYY-MM-DD\<close>;
  \<^item> \<open>dateToString\<close>: \<open>Date.prototype.toString\<close> of a valid date (local time);
  \<^item> \<open>numberToString\<close>: \<open>Number::toString\<close> of a finite number that is not an
    integer below \<open>10^21\<close> in magnitude;
  \<^item> \<open>jsonErrorMessage\<close>: the message of the \<open>SyntaxError\<close> of \<open>JSON.parse\<close>.
\<close>

record runtime =
  dateParseOther :: "jsstring \<Rightarrow> int option"
  dateToString :: "int \<Rightarrow> jsstring"
  numberToString :: "rat \<Rightarrow> jsstring"
  jsonErrorMessage :: "jsstring \<Rightarrow> jsstring"

subsection \<open>Character classes and \<open>trim\<close>\<close>

text \<open>
  The class \<open>\s\<close> and \<open>String.prototype.trim\<close> use the same code units: white space
  and line terminators.
\<close>

definition is_space :: "16 word \<Rightarrow> bool" where
  "is_space c \<longleftrightarrow>
     c \<in> {0x9, 0xA, 0xB, 0xC, 0xD, 0x20, 0xA0, 0x1680, 0x2028, 0x2029, 0x202F, 0x205F,
           0x3000, 0xFEFF}
     \<or> (0x2000 \<le> c \<and> c \<le> 0x200A)"

definition is_digit :: "16 word \<Rightarrow> bool" where
  "is_digit c \<longleftrightarrow> 0x30 \<le> c \<and> c \<le> 0x39"

definition trim :: "jsstring \<Rightarrow> jsstring" where
  "trim s = rev (dropWhile is_space (rev (dropWhile is_space s)))"

subsection \<open>Strings\<close>

text \<open>\<open>Array.prototype.join\<close> and \<open>String.prototype.split\<close> with a one-unit separator.\<close>

fun join :: "jsstring \<Rightarrow> jsstring list \<Rightarrow> jsstring" where
  "join sep [] = []"
| "join sep [x] = x"
| "join sep (x # y # ys) = x @ sep @ join sep (y # ys)"

fun split_on :: "16 word \<Rightarrow> jsstring \<Rightarrow> jsstring list" where
  "split_on sep [] = [[]]"
| "split_on sep (c # cs) =
     (if c = sep then [] # split_on sep cs
      else (case split_on sep cs of [] \<Rightarrow> [[c]] | p # ps \<Rightarrow> (c # p) # ps))"

subsection \<open>Numbers\<close>

text \<open>
  \<open>num_less\<close> is \<open><\<close> on numbers: false whenever an operand is NaN.
  \<open>StringToNumber\<close> is \<open>Number\<close> applied to a string: white space is trimmed, the
  empty string is 0, then a hexadecimal, octal or binary literal, or a signed decimal
  literal or \<open>Infinity\<close>; anything else is NaN. \<open>parseInt10\<close> is \<open>parseInt(s, 10)\<close>,
  whose result is an integer or NaN (\<open>None\<close>). \<open>js_String\<close> and \<open>js_Number\<close> are the
  conversions \<open>String(v)\<close> and \<open>Number(v)\<close>.
\<close>

fun num_less :: "jsnum \<Rightarrow> jsnum \<Rightarrow> bool" where
  "num_less NaN y = False"
| "num_less x NaN = False"
| "num_less NegInf y = (y \<noteq> NegInf)"
| "num_less (Fin a) NegInf = False"
| "num_less (Fin a) (Fin b) = (a < b)"
| "num_less (Fin a) PosInf = True"
| "num_less PosInf y = False"

fun num_neg :: "jsnum \<Rightarrow> jsnum" where
  "num_neg NaN = NaN"
| "num_neg NegInf = PosInf"
| "num_neg (Fin a) = Fin (- a)"
| "num_neg PosInf = NegInf"

definition Number_toString :: "runtime \<Rightarrow> jsnum \<Rightarrow> jsstring" where
  "Number_toString rt n =
     (case n of
        NaN \<Rightarrow> js ''NaN''
      | NegInf \<Rightarrow> js ''-Infinity''
      | PosInf \<Rightarrow> js ''Infinity''
      | Fin q \<Rightarrow>
          (if q = of_int \<lfloor>q\<rfloor> \<and> \<bar>q\<bar> < 10 ^ 21
           then (if q < 0 then js ''-'' else []) @ decimal (nat \<bar>\<lfloor>q\<rfloor>\<bar>)
           else numberToString rt q))"

definition digit_val :: "16 word \<Rightarrow> nat" where
  "digit_val c = unat c - 48"

definition digits_val :: "jsstring \<Rightarrow> nat" where
  "digits_val ds = foldl (\<lambda>n c. 10 * n + digit_val c) 0 ds"

definition is_radix_digit :: "nat \<Rightarrow> 16 word \<Rightarrow> bool" where
  "is_radix_digit b c \<longleftrightarrow>
     (0x30 \<le> c \<and> unat c < 0x30 + min b 10)
     \<or> (0x61 \<le> c \<and> unat c + 10 < 0x61 + b)
     \<or> (0x41 \<le> c \<and> unat c + 10 < 0x41 + b)"

definition radix_digit_val :: "16 word \<Rightarrow> nat" where
  "radix_digit_val c =
     (if 0x61 \<le> c then unat c - 0x61 + 10 else if 0x41 \<le> c then unat c - 0x41 + 10
      else unat c - 0x30)"

definition radix_literal :: "nat \<Rightarrow> jsstring \<Rightarrow> jsnum" where
  "radix_literal b ds =
     (if ds \<noteq> [] \<and> list_all (is_radix_digit b) ds
      then Fin (of_nat (foldl (\<lambda>n c. b * n + radix_digit_val c) 0 ds))
      else NaN)"

definition exponent_part :: "jsstring \<Rightarrow> int option" where
  "exponent_part s =
     (case s of
        [] \<Rightarrow> Some 0
      | c # r \<Rightarrow>
          (if c = 0x65 \<or> c = 0x45 then
             (let neg = (case r of [] \<Rightarrow> False | x # _ \<Rightarrow> x = 0x2D);
                  ds = (case r of [] \<Rightarrow> [] | x # r' \<Rightarrow> if x = 0x2B \<or> x = 0x2D then r' else r)
              in if ds \<noteq> [] \<and> list_all is_digit ds
                 then Some (if neg then - int (digits_val ds) else int (digits_val ds))
                 else None)
           else None))"

definition unsigned_decimal :: "jsstring \<Rightarrow> jsnum" where
  "unsigned_decimal s =
     (if s = js ''Infinity'' then PosInf
      else
        (let ip = takeWhile is_digit s;
             r1 = dropWhile is_digit s;
             dot = (case r1 of [] \<Rightarrow> False | c # _ \<Rightarrow> c = 0x2E);
             fp = (if dot then takeWhile is_digit (tl r1) else []);
             r2 = (if dot then dropWhile is_digit (tl r1) else r1)
         in if ip = [] \<and> fp = [] then NaN
            else (case exponent_part r2 of
                    None \<Rightarrow> NaN
                  | Some e \<Rightarrow>
                      (let m = of_nat (digits_val (ip @ fp)) / 10 ^ length fp
                       in Fin (if 0 \<le> e then m * 10 ^ nat e else m / 10 ^ nat (- e))))))"

definition StringToNumber :: "jsstring \<Rightarrow> jsnum" where
  "StringToNumber s =
     (let t = trim s in
      case t of
        [] \<Rightarrow> Fin 0
      | c # r \<Rightarrow>
          (if c = 0x30 \<and> r \<noteq> [] \<and> hd r \<in> {0x78, 0x58} then radix_literal 16 (tl r)
           else if c = 0x30 \<and> r \<noteq> [] \<and> hd r \<in> {0x6F, 0x4F} then radix_literal 8 (tl r)
           else if c = 0x30 \<and> r \<noteq> [] \<and> hd r \<in> {0x62, 0x42} then radix_literal 2 (tl r)
           else if c = 0x2B then unsigned_decimal r
           else if c = 0x2D then num_neg (unsigned_decimal r)
           else unsigned_decimal t))"

definition parseInt10 :: "jsstring \<Rightarrow> int option" where
  "parseInt10 s =
     (let t = dropWhile is_space s;
          neg = (case t of [] \<Rightarrow> False | c # _ \<Rightarrow> c = 0x2D);
          u = (case t of [] \<Rightarrow> [] | c # r \<Rightarrow> if c = 0x2B \<or> c = 0x2D then r else t);
          ds = takeWhile is_digit u
      in if ds = [] then None
         else Some (if neg then - int (digits_val ds) else int (digits_val ds)))"

fun js_String :: "runtime \<Rightarrow> jsvalue \<Rightarrow> jsstring" where
  "js_String rt Undefined = js ''undefined''"
| "js_String rt Null = js ''null''"
| "js_String rt (Bool b) = (if b then js ''true'' else js ''false'')"
| "js_String rt (Num n) = Number_toString rt n"
| "js_String rt (Str s) = s"
| "js_String rt (DateV d) = (case d of None \<Rightarrow> js ''Invalid Date'' | Some t \<Rightarrow> dateToString rt t)"
| "js_String rt (Arr vs) =
     join (js '','') (map (\<lambda>v. if v = Undefined \<or> v = Null then [] else js_String rt v) vs)"
| "js_String rt (Obj ps) = js ''[object Object]''"

fun js_Number :: "runtime \<Rightarrow> jsvalue \<Rightarrow> jsnum" where
  "js_Number rt Undefined = NaN"
| "js_Number rt Null = Fin 0"
| "js_Number rt (Bool b) = (if b then Fin 1 else Fin 0)"
| "js_Number rt (Num n) = n"
| "js_Number rt (Str s) = StringToNumber s"
| "js_Number rt (DateV d) = (case d of None \<Rightarrow> NaN | Some t \<Rightarrow> Fin (of_int t))"
| "js_Number rt (Arr vs) = StringToNumber (js_String rt (Arr vs))"
| "js_Number rt (Obj ps) = StringToNumber (js_String rt (Obj ps))"

subsection \<open>Dates\<close>

text \<open>
  The calendar of ECMA-262 (``Time Values and Time Range''): days are counted from
  1 January 1970 UTC, months from 0. \<open>YearFromDay\<close> estimates the year from the mean
  length of a year and corrects the estimate by one. \<open>Date.parse\<close> is determined for the
  date-only form with a valid month and day, which is UTC midnight; every other string is
  left to \<open>dateParseOther\<close>. \<open>strict_ne\<close> is \<open>!==\<close> on numbers, where \<open>None\<close> is NaN.
\<close>

definition msPerDay :: int where
  "msPerDay = 86400000"

definition Day :: "int \<Rightarrow> int" where
  "Day t = t div msPerDay"

definition DayFromYear :: "int \<Rightarrow> int" where
  "DayFromYear y = 365 * (y - 1970) + (y - 1969) div 4 - (y - 1901) div 100 + (y - 1601) div 400"

definition InLeapYear :: "int \<Rightarrow> bool" where
  "InLeapYear y \<longleftrightarrow> y mod 4 = 0 \<and> (y mod 100 \<noteq> 0 \<or> y mod 400 = 0)"

definition YearFromDay :: "int \<Rightarrow> int" where
  "YearFromDay d =
     (let y = 1970 + (d * 400) div 146097
      in if d < DayFromYear y then y - 1 else if DayFromYear (y + 1) \<le> d then y + 1 else y)"

definition YearFromTime :: "int \<Rightarrow> int" where
  "YearFromTime t = YearFromDay (Day t)"

definition DayWithinYear :: "int \<Rightarrow> int" where
  "DayWithinYear t = Day t - DayFromYear (YearFromTime t)"

definition month_start :: "bool \<Rightarrow> int \<Rightarrow> int" where
  "month_start leap s = (if 59 \<le> s \<and> leap then s + 1 else s)"

definition month_starts :: "int list" where
  "month_starts = [31, 59, 90, 120, 151, 181, 212, 243, 273, 304, 334]"

definition MonthFromTime :: "int \<Rightarrow> int" where
  "MonthFromTime t =
     int (length (filter (\<lambda>s. month_start (InLeapYear (YearFromTime t)) s \<le> DayWithinYear t)
                    month_starts))"

definition DateFromTime :: "int \<Rightarrow> int" where
  "DateFromTime t =
     (let leap = InLeapYear (YearFromTime t);
          starts = filter (\<lambda>s. month_start leap s \<le> DayWithinYear t) month_starts
      in DayWithinYear t - (if starts = [] then 0 else month_start leap (last starts)) + 1)"

definition getUTCFullYear :: "Date \<Rightarrow> int option" where
  "getUTCFullYear d = map_option YearFromTime d"

definition getUTCMonth :: "Date \<Rightarrow> int option" where
  "getUTCMonth d = map_option MonthFromTime d"

definition getUTCDate :: "Date \<Rightarrow> int option" where
  "getUTCDate d = map_option DateFromTime d"

definition DaysInMonth :: "int \<Rightarrow> nat \<Rightarrow> nat" where
  "DaysInMonth y m =
     (if m = 2 then (if InLeapYear y then 29 else 28)
      else if m \<in> {4, 6, 9, 11} then 30 else 31)"

definition MakeDay :: "int \<Rightarrow> nat \<Rightarrow> nat \<Rightarrow> int" where
  "MakeDay y m d =
     DayFromYear y
     + (if m = 1 then 0 else month_start (InLeapYear y) (month_starts ! (m - 2)))
     + int d - 1"

definition iso_date_only :: "jsstring \<Rightarrow> int option" where
  "iso_date_only s =
     (if length s = 10 \<and> list_all is_digit (take 4 s) \<and> s ! 4 = 0x2D
         \<and> list_all is_digit (take 2 (drop 5 s)) \<and> s ! 7 = 0x2D
         \<and> list_all is_digit (drop 8 s)
      then
        (let y = int (digits_val (take 4 s));
             m = digits_val (take 2 (drop 5 s));
             d = digits_val (drop 8 s)
         in if 1 \<le> m \<and> m \<le> 12 \<and> 1 \<le> d \<and> d \<le> DaysInMonth y m
            then Some (MakeDay y m d * msPerDay) else None)
      else None)"

definition Date_parse :: "runtime \<Rightarrow> jsstring \<Rightarrow> Date" where
  "Date_parse rt s = (case iso_date_only s of Some t \<Rightarrow> Some t | None \<Rightarrow> dateParseOther rt s)"

definition strict_ne :: "int option \<Rightarrow> int option \<Rightarrow> bool" where
  "strict_ne a b \<longleftrightarrow> a = None \<or> b = None \<or> a \<noteq> b"

subsection \<open>\<open>JSON.parse\<close>\<close>

text \<open>
  The JSON grammar of ECMA-404, which \<open>JSON.parse\<close> accepts: the text is cut into tokens
  (\<open>lex\<close>), and the tokens are read by an automaton with a stack of the arrays and
  objects that are open (\<open>step\<close>, \<open>run\<close>). \<open>None\<close> is the \<open>SyntaxError\<close>. A number
  keeps its exact decimal value. A repeated key keeps its first place and its last value.
\<close>

datatype token =
    LBrace | RBrace | LBracket | RBracket | Colon | Comma
  | TString jsstring | TNumber rat | TTrue | TFalse | TNull

definition escape_char :: "16 word \<Rightarrow> 16 word option" where
  "escape_char e =
     (if e = 0x22 then Some 0x22 else if e = 0x5C then Some 0x5C
      else if e = 0x2F then Some 0x2F else if e = 0x62 then Some 0x8
      else if e = 0x66 then Some 0xC else if e = 0x6E then Some 0xA
      else if e = 0x72 then Some 0xD else if e = 0x74 then Some 0x9
      else None)"

definition hex4 :: "jsstring \<Rightarrow> 16 word" where
  "hex4 ds = of_nat (foldl (\<lambda>n c. 16 * n + radix_digit_val c) 0 ds)"

fun lex_string :: "jsstring \<Rightarrow> (jsstring \<times> jsstring) option" where
  "lex_string [] = None"
| "lex_string (c # cs) =
     (if c = 0x22 then Some ([], cs)
      else if c = 0x5C then
        (case cs of
           [] \<Rightarrow> None
         | e # r \<Rightarrow>
            (if e = 0x75 then
               (if 4 \<le> length r \<and> list_all (is_radix_digit 16) (take 4 r)
                then map_option (\<lambda>(s, rest). (hex4 (take 4 r) # s, rest)) (lex_string (drop 4 r))
                else None)
             else
               (case escape_char e of
                  None \<Rightarrow> None
                | Some x \<Rightarrow> map_option (\<lambda>(s, rest). (x # s, rest)) (lex_string r))))
      else if c < 0x20 then None
      else map_option (\<lambda>(s, rest). (c # s, rest)) (lex_string cs))"

definition lex_number :: "jsstring \<Rightarrow> (rat \<times> jsstring) option" where
  "lex_number s =
     (let neg = (case s of [] \<Rightarrow> False | c # _ \<Rightarrow> c = 0x2D);
          s1 = (if neg then tl s else s);
          ip = takeWhile is_digit s1;
          r1 = dropWhile is_digit s1;
          dot = (case r1 of [] \<Rightarrow> False | c # _ \<Rightarrow> c = 0x2E);
          fp = (if dot then takeWhile is_digit (tl r1) else []);
          r2 = (if dot then dropWhile is_digit (tl r1) else r1);
          ex = (case r2 of [] \<Rightarrow> False | c # _ \<Rightarrow> c = 0x65 \<or> c = 0x45);
          r3 = (if ex then tl r2 else r2);
          eneg = (case r3 of [] \<Rightarrow> False | c # _ \<Rightarrow> ex \<and> c = 0x2D);
          r4 = (case r3 of [] \<Rightarrow> [] | c # r \<Rightarrow> if ex \<and> (c = 0x2B \<or> c = 0x2D) then r else r3);
          ep = (if ex then takeWhile is_digit r4 else []);
          r5 = (if ex then dropWhile is_digit r4 else r2)
      in if ip = [] \<or> (1 < length ip \<and> hd ip = 0x30) \<or> (dot \<and> fp = []) \<or> (ex \<and> ep = [])
         then None
         else
           (let m = of_nat (digits_val (ip @ fp)) / 10 ^ length fp;
                v = (if eneg then m / 10 ^ digits_val ep else m * 10 ^ digits_val ep)
            in Some (if neg then - v else v, r5)))"

lemma lex_string_shorter: "lex_string s = Some (str, rest) \<Longrightarrow> length rest < length s"
proof (induction s arbitrary: str rest rule: lex_string.induct)
  case 1
  then show ?case by simp
next
  case (2 c cs)
  show ?case
  proof (cases "c = 0x22")
    case True
    with "2.prems" show ?thesis by simp
  next
    case notq: False
    show ?thesis
    proof (cases "c = 0x5C")
      case True
      show ?thesis
      proof (cases cs)
        case Nil
        with "2.prems" notq True show ?thesis by simp
      next
        case (Cons e r)
        show ?thesis
        proof (cases "e = 0x75")
          case u: True
          with "2.prems" notq True Cons obtain s' where
            "lex_string (drop 4 r) = Some (s', rest)"
            by (auto split: if_splits)
          moreover from "2.prems" notq True Cons u
          have "4 \<le> length r \<and> list_all (is_radix_digit 16) (take 4 r)"
            by (auto split: if_splits)
          ultimately have "length rest < length (drop 4 r)"
            using "2.IH"(1) [OF notq True Cons u] by blast
          with Cons show ?thesis by simp
        next
          case nu: False
          with "2.prems" notq True Cons obtain x s' where x: "escape_char e = Some x"
            and "lex_string r = Some (s', rest)"
            by (auto split: option.splits)
          then have "length rest < length r"
            using "2.IH"(2) [OF notq True Cons nu x] by blast
          with Cons show ?thesis by simp
        qed
      qed
    next
      case nb: False
      with "2.prems" notq obtain s' where c: "\<not> c < 0x20" and "lex_string cs = Some (s', rest)"
        by (auto split: if_splits)
      then have "length rest < length cs"
        using "2.IH"(3) [OF notq nb c] by blast
      then show ?thesis by simp
    qed
  qed
qed

lemma if_None_else_Some:
  "(if c then None else Some (x, y)) = Some (q, r) \<Longrightarrow> \<not> c \<and> r = y"
  by (cases c) auto

lemma lex_number_shorter: "lex_number s = Some (q, rest) \<Longrightarrow> length rest < length s"
proof -
  assume a: "lex_number s = Some (q, rest)"
  define neg where "neg = (case s of [] \<Rightarrow> False | c # _ \<Rightarrow> c = 0x2D)"
  define s1 where "s1 = (if neg then tl s else s)"
  define r1 where "r1 = dropWhile is_digit s1"
  define dot where "dot = (case r1 of [] \<Rightarrow> False | c # _ \<Rightarrow> c = 0x2E)"
  define r2 where "r2 = (if dot then dropWhile is_digit (tl r1) else r1)"
  define ex where "ex = (case r2 of [] \<Rightarrow> False | c # _ \<Rightarrow> c = 0x65 \<or> c = 0x45)"
  define r3 where "r3 = (if ex then tl r2 else r2)"
  define r4 where "r4 = (case r3 of [] \<Rightarrow> [] | c # r \<Rightarrow> if ex \<and> (c = 0x2B \<or> c = 0x2D) then r else r3)"
  define r5 where "r5 = (if ex then dropWhile is_digit r4 else r2)"
  note b = a [unfolded lex_number_def Let_def, THEN if_None_else_Some]
  have rest: "rest = r5"
    unfolding r5_def r4_def r3_def ex_def r2_def dot_def r1_def s1_def neg_def
    by (rule b [THEN conjunct2])
  have ip: "takeWhile is_digit s1 \<noteq> []"
    unfolding s1_def neg_def using b [THEN conjunct1] by blast
  have "length s1 \<le> length s" by (simp add: s1_def)
  moreover have "length s1 = length (takeWhile is_digit s1) + length r1"
    unfolding r1_def by (metis length_append takeWhile_dropWhile_id)
  moreover obtain x xs where "takeWhile is_digit s1 = x # xs"
    using ip by (cases "takeWhile is_digit s1") auto
  moreover have "length r2 \<le> length r1"
    unfolding r2_def using length_dropWhile_le [of is_digit "tl r1"] by auto
  moreover have "length r3 \<le> length r2" by (simp add: r3_def)
  moreover have "length r4 \<le> length r3" by (auto simp: r4_def split: list.splits)
  moreover have "length (dropWhile is_digit r4) \<le> length r4" by (rule length_dropWhile_le)
  ultimately have "length r5 < length s" by (auto simp: r5_def)
  with rest show ?thesis by simp
qed

function lex :: "jsstring \<Rightarrow> token list option" where
  "lex [] = Some []"
| "lex (c # cs) =
     (if c = 0x20 \<or> c = 0x9 \<or> c = 0xA \<or> c = 0xD then lex cs
      else if c = 0x7B then map_option (Cons LBrace) (lex cs)
      else if c = 0x7D then map_option (Cons RBrace) (lex cs)
      else if c = 0x5B then map_option (Cons LBracket) (lex cs)
      else if c = 0x5D then map_option (Cons RBracket) (lex cs)
      else if c = 0x3A then map_option (Cons Colon) (lex cs)
      else if c = 0x2C then map_option (Cons Comma) (lex cs)
      else if c = 0x22 then
        (case lex_string cs of
           None \<Rightarrow> None
         | Some (str, rest) \<Rightarrow> map_option (Cons (TString str)) (lex rest))
      else if c = 0x2D \<or> is_digit c then
        (case lex_number (c # cs) of
           None \<Rightarrow> None
         | Some (q, rest) \<Rightarrow> map_option (Cons (TNumber q)) (lex rest))
      else if take 4 (c # cs) = js ''true'' then map_option (Cons TTrue) (lex (drop 3 cs))
      else if take 5 (c # cs) = js ''false'' then map_option (Cons TFalse) (lex (drop 4 cs))
      else if take 4 (c # cs) = js ''null'' then map_option (Cons TNull) (lex (drop 3 cs))
      else None)"
  by pat_completeness auto
termination
  by (relation "measure length")
     (auto dest: lex_string_shorter lex_number_shorter intro: less_SucI le_imp_less_Suc)


declare lex.simps(2) [simp del]

text \<open>
  The order of the own property keys of an object: the array indices in ascending order,
  then the other keys in the order of their creation.
\<close>

definition is_array_index :: "jsstring \<Rightarrow> bool" where
  "is_array_index k \<longleftrightarrow>
     k \<noteq> [] \<and> list_all is_digit k \<and> (length k = 1 \<or> hd k \<noteq> 0x30)
     \<and> digits_val k < 2 ^ 32 - 1"

fun insert_index :: "jsstring \<Rightarrow> jsvalue \<Rightarrow> (jsstring \<times> jsvalue) list \<Rightarrow> (jsstring \<times> jsvalue) list" where
  "insert_index k v [] = [(k, v)]"
| "insert_index k v ((k', v') # ps) =
     (if is_array_index k' \<and> digits_val k' < digits_val k then (k', v') # insert_index k v ps
      else (k, v) # (k', v') # ps)"

definition define_property :: "(jsstring \<times> jsvalue) list \<Rightarrow> jsstring \<Rightarrow> jsvalue \<Rightarrow> (jsstring \<times> jsvalue) list" where
  "define_property ps k v =
     (if k \<in> fst ` set ps then map (\<lambda>(k', v'). if k' = k then (k', v) else (k', v')) ps
      else if is_array_index k then insert_index k v ps
      else ps @ [(k, v)])"

datatype frame = InArray "jsvalue list" | InObject "(jsstring \<times> jsvalue) list" jsstring

datatype pstate =
    WantValue "frame list"
  | WantValueOrEnd "frame list"
  | WantKeyOrEnd "frame list"
  | WantKey "(jsstring \<times> jsvalue) list" "frame list"
  | WantColon "(jsstring \<times> jsvalue) list" jsstring "frame list"
  | HaveValue jsvalue "frame list"

fun scalar :: "token \<Rightarrow> jsvalue option" where
  "scalar (TString s) = Some (Str s)"
| "scalar (TNumber q) = Some (Num (Fin q))"
| "scalar TTrue = Some (Bool True)"
| "scalar TFalse = Some (Bool False)"
| "scalar TNull = Some Null"
| "scalar t = None"

fun begin_value :: "token \<Rightarrow> frame list \<Rightarrow> pstate option" where
  "begin_value LBrace st = Some (WantKeyOrEnd st)"
| "begin_value LBracket st = Some (WantValueOrEnd st)"
| "begin_value t st = map_option (\<lambda>v. HaveValue v st) (scalar t)"

fun step :: "pstate \<Rightarrow> token \<Rightarrow> pstate option" where
  "step (WantValue st) t = begin_value t st"
| "step (WantValueOrEnd st) t =
     (if t = RBracket then Some (HaveValue (Arr []) st) else begin_value t (InArray [] # st))"
| "step (WantKeyOrEnd st) t =
     (case t of RBrace \<Rightarrow> Some (HaveValue (Obj []) st)
              | TString k \<Rightarrow> Some (WantColon [] k st)
              | _ \<Rightarrow> None)"
| "step (WantKey ms st) t = (case t of TString k \<Rightarrow> Some (WantColon ms k st) | _ \<Rightarrow> None)"
| "step (WantColon ms k st) t =
     (if t = Colon then Some (WantValue (InObject ms k # st)) else None)"
| "step (HaveValue v []) t = None"
| "step (HaveValue v (InArray vs # st)) t =
     (case t of Comma \<Rightarrow> Some (WantValue (InArray (vs @ [v]) # st))
              | RBracket \<Rightarrow> Some (HaveValue (Arr (vs @ [v])) st)
              | _ \<Rightarrow> None)"
| "step (HaveValue v (InObject ms k # st)) t =
     (case t of Comma \<Rightarrow> Some (WantKey (define_property ms k v) st)
              | RBrace \<Rightarrow> Some (HaveValue (Obj (define_property ms k v)) st)
              | _ \<Rightarrow> None)"

fun run :: "pstate \<Rightarrow> token list \<Rightarrow> pstate option" where
  "run s [] = Some s"
| "run s (t # ts) = (case step s t of None \<Rightarrow> None | Some s' \<Rightarrow> run s' ts)"

definition JSON_parse :: "jsstring \<Rightarrow> jsvalue option" where
  "JSON_parse text =
     (case lex text of
        None \<Rightarrow> None
      | Some ts \<Rightarrow> (case run (WantValue []) ts of Some (HaveValue v []) \<Rightarrow> Some v | _ \<Rightarrow> None))"

section \<open>Validators (\<open>validation/validators.ts\<close>)\<close>

subsection \<open>Regular expressions\<close>

text \<open>
  The regular expressions of the source use character classes, sequence, \<open>+\<close> and
  \<open>{n}\<close> between the anchors \<open>^\<close> and \<open>$\<close>, without flags. \<open>test\<close> on such an
  expression is membership of the whole string (\<open>test_whole\<close>, for \<open>/^r$/\<close>) or of
  one of its prefixes (\<open>test_start\<close>, for \<open>/^r/\<close>); it is computed with derivatives.
\<close>

datatype 'a rx =
    Nothing
  | Empty
  | Class "'a \<Rightarrow> bool"
  | Alt "'a rx" "'a rx"
  | Seq "'a rx" "'a rx"
  | Star "'a rx"

definition Plus1 :: "'a rx \<Rightarrow> 'a rx" where
  "Plus1 r = Seq r (Star r)"

fun Times :: "nat \<Rightarrow> 'a rx \<Rightarrow> 'a rx" where
  "Times 0 r = Empty"
| "Times (Suc n) r = Seq r (Times n r)"

fun nullable :: "'a rx \<Rightarrow> bool" where
  "nullable Nothing = False"
| "nullable Empty = True"
| "nullable (Class P) = False"
| "nullable (Alt r s) = (nullable r \<or> nullable s)"
| "nullable (Seq r s) = (nullable r \<and> nullable s)"
| "nullable (Star r) = True"

fun deriv :: "'a \<Rightarrow> 'a rx \<Rightarrow> 'a rx" where
  "deriv c Nothing = Nothing"
| "deriv c Empty = Nothing"
| "deriv c (Class P) = (if P c then Empty else Nothing)"
| "deriv c (Alt r s) = Alt (deriv c r) (deriv c s)"
| "deriv c (Seq r s) =
     (if nullable r then Alt (Seq (deriv c r) s) (deriv c s) else Seq (deriv c r) s)"
| "deriv c (Star r) = Seq (deriv c r) (Star r)"

fun matches :: "'a rx \<Rightarrow> 'a list \<Rightarrow> bool" where
  "matches r [] = nullable r"
| "matches r (c # cs) = matches (deriv c r) cs"

definition test_whole :: "'a rx \<Rightarrow> 'a list \<Rightarrow> bool" where
  "test_whole r s = matches r s"

definition test_start :: "'a rx \<Rightarrow> 'a list \<Rightarrow> bool" where
  "test_start r s = matches (Seq r (Star (Class (\<lambda>c. True)))) s"

subsection \<open>\<open>validateEmail\<close>\<close>

text \<open>
  \<open>EMAIL_REGEX = /^[^\s@]+@[^\s@]+\.[^\s@]+$/\<close>. The regular expressions of the module
  have no \<open>g\<close> or \<open>y\<close> flag, so \<open>test\<close> keeps no position between calls.
\<close>

definition EMAIL_REGEX :: "16 word rx" where
  "EMAIL_REGEX =
     Seq (Plus1 (Class (\<lambda>c. \<not> (is_space c \<or> c = 0x40))))
    (Seq (Class (\<lambda>c. c = 0x40))
    (Seq (Plus1 (Class (\<lambda>c. \<not> (is_space c \<or> c = 0x40))))
    (Seq (Class (\<lambda>c. c = 0x2E))
         (Plus1 (Class (\<lambda>c. \<not> (is_space c \<or> c = 0x40)))))))"

definition validateEmail :: "jsstring \<Rightarrow> ValidationResult" where
  "validateEmail v =
     (if v = [] \<or> trim v = [] then Invalid (js ''Invalid email format'')
      else if \<not> test_whole EMAIL_REGEX v then Invalid (js ''Invalid email format'')
      else Valid)"

subsection \<open>\<open>validatePhone\<close>, \<open>validateNumber\<close>, \<open>validateDate\<close>, \<open>validateEnum\<close>\<close>

text \<open>
  \<open>PHONE_REGEX = /^[\d\s+\-()]+$/\<close>; \<open>replace(/\D/g, '')\<close> keeps the digits.
  \<open>validateNumber\<close> takes the two bounds of its \<open>rules\<close> argument. \<open>validateDate\<close>
  takes a \<open>Date | string\<close>; \<open>isoFormat = /^\d{4}-\d{2}-\d{2}/\<close>.
\<close>

definition PHONE_REGEX :: "16 word rx" where
  "PHONE_REGEX = Plus1 (Class (\<lambda>c. is_digit c \<or> is_space c \<or> c \<in> {0x2B, 0x2D, 0x28, 0x29}))"

definition MIN_PHONE_DIGITS :: nat where
  "MIN_PHONE_DIGITS = 10"

definition validatePhone :: "jsstring \<Rightarrow> ValidationResult" where
  "validatePhone v =
     (if v = [] \<or> trim v = [] then Invalid (js ''Invalid phone format'')
      else
        (let digitsOnly = filter is_digit v
         in if length digitsOnly < MIN_PHONE_DIGITS then Invalid (js ''Invalid phone format'')
            else if \<not> test_whole PHONE_REGEX v then Invalid (js ''Invalid phone format'')
            else Valid))"

definition validateNumber :: "runtime \<Rightarrow> jsnum \<Rightarrow> jsnum option \<Rightarrow> jsnum option \<Rightarrow> ValidationResult" where
  "validateNumber rt v rmin rmax =
     (case (if rmin \<noteq> None \<and> num_less v (the rmin) then rmin else None) of
        Some m \<Rightarrow> Invalid (js ''Number must be at least '' @ Number_toString rt m)
      | None \<Rightarrow>
         (case (if rmax \<noteq> None \<and> num_less (the rmax) v then rmax else None) of
            Some m \<Rightarrow> Invalid (js ''Number must be at most '' @ Number_toString rt m)
          | None \<Rightarrow> Valid))"

definition validateIsoDateParts :: "jsstring \<Rightarrow> Date \<Rightarrow> ValidationResult" where
  "validateIsoDateParts dateString dateObj =
     (case split_on 0x54 dateString of
        [] \<Rightarrow> Invalid (js ''Invalid date format'')
      | datePart # _ \<Rightarrow>
         (if datePart = [] then Invalid (js ''Invalid date format'')
          else
            (case split_on 0x2D datePart of
               p0 # p1 # p2 # _ \<Rightarrow>
                 (if p0 = [] \<or> p1 = [] \<or> p2 = [] then Invalid (js ''Invalid date format'')
                  else
                    (let year = parseInt10 p0; month = parseInt10 p1; day = parseInt10 p2
                     in if strict_ne (getUTCFullYear dateObj) year
                           \<or> strict_ne (map_option (\<lambda>m. m + 1) (getUTCMonth dateObj)) month
                           \<or> strict_ne (getUTCDate dateObj) day
                        then Invalid (js ''Invalid date format'')
                        else Valid))
             | _ \<Rightarrow> Invalid (js ''Invalid date format''))))"

datatype date_or_string = ADate Date | AString jsstring

definition isoFormat :: "16 word rx" where
  "isoFormat =
     Seq (Times 4 (Class is_digit)) (Seq (Class (\<lambda>c. c = 0x2D))
    (Seq (Times 2 (Class is_digit)) (Seq (Class (\<lambda>c. c = 0x2D))
         (Times 2 (Class is_digit)))))"

fun validateDate :: "runtime \<Rightarrow> date_or_string \<Rightarrow> ValidationResult" where
  "validateDate rt (ADate d) =
     (if d = None then Invalid (js ''Invalid date format'') else Valid)"
| "validateDate rt (AString s) =
     (if s = [] \<or> trim s = [] then Invalid (js ''Invalid date format'')
      else
        (let dateObj = Date_parse rt s
         in if dateObj = None then Invalid (js ''Invalid date format'')
            else if test_start isoFormat s then validateIsoDateParts s dateObj
            else Valid))"

definition validateEnum :: "jsstring \<Rightarrow> jsstring list \<Rightarrow> ValidationResult" where
  "validateEnum v opts =
     (if v \<notin> set opts then Invalid (js ''Value must be one of: '' @ join (js '', '') opts)
      else Valid)"

section \<open>The dispatcher (\<open>validation/validate-field.ts\<close>)\<close>

definition checkRequired :: "FormField \<Rightarrow> jsvalue \<Rightarrow> ValidationResult option" where
  "checkRequired field v =
     (let isNull = (v = Null \<or> v = Undefined)
      in if required field \<and> isNull then Some (Invalid (js ''Field is required''))
         else if \<not> required field \<and> isNull then Some Valid
         else None)"

definition validateNumberField :: "runtime \<Rightarrow> jsvalue \<Rightarrow> ValidationRule option \<Rightarrow> ValidationResult" where
  "validateNumberField rt v validation' =
     (let numValue = (case v of Num n \<Rightarrow> n | _ \<Rightarrow> js_Number rt v)
      in case validation' of
           None \<Rightarrow> validateNumber rt numValue None None
         | Some rules \<Rightarrow> validateNumber rt numValue (rule_min rules) (rule_max rules))"

definition validateDateField :: "runtime \<Rightarrow> jsvalue \<Rightarrow> ValidationResult" where
  "validateDateField rt v =
     (case v of
        DateV d \<Rightarrow> validateDate rt (ADate d)
      | Str s \<Rightarrow> validateDate rt (AString s)
      | _ \<Rightarrow> Invalid (js ''Invalid date format''))"

definition validateEnumField :: "runtime \<Rightarrow> jsvalue \<Rightarrow> ValidationRule option \<Rightarrow> ValidationResult" where
  "validateEnumField rt v validation' =
     (let strValue = js_String rt v;
          opts = (case validation' of
                    None \<Rightarrow> []
                  | Some rules \<Rightarrow> (case options rules of None \<Rightarrow> [] | Some os \<Rightarrow> os))
      in validateEnum strValue opts)"

definition validateField :: "runtime \<Rightarrow> FormField \<Rightarrow> jsvalue \<Rightarrow> ValidationResult" where
  "validateField rt field v =
     (case checkRequired field v of
        Some requiredResult \<Rightarrow> requiredResult
      | None \<Rightarrow>
         (case type field of
            EMAIL \<Rightarrow> validateEmail (js_String rt v)
          | PHONE \<Rightarrow> validatePhone (js_String rt v)
          | NUMBER \<Rightarrow> validateNumberField rt v (validation field)
          | DATE \<Rightarrow> validateDateField rt v
          | ENUM \<Rightarrow> validateEnumField rt v (validation field)
          | TEXT \<Rightarrow> Valid
          | LONG_TEXT \<Rightarrow> Valid))"

section \<open>Completion and the next field (\<open>orchestrator/orchestrator.ts\<close>)\<close>

text \<open>
  \<open>determineNextField\<close>: the collected identifiers are a set; the fields are sorted by
  \<open>order\<close> with the runtime's stable sort, and the first required field whose
  identifier is not collected gives its name. \<open>null\<close> is \<open>None\<close>.
\<close>

definition determineNextField :: "FormDefinition \<Rightarrow> Session \<Rightarrow> jsstring option" where
  "determineNextField form session =
    (let collectedFieldIds = set (map fieldId (session_fields session));
         sortedFields = sort_key order (form_fields form)
     in map_option field_name
          (find (\<lambda>field. required field \<and> field_id field \<notin> collectedFieldIds) sortedFields))"

text \<open>
  \<open>isFormComplete\<close>: each extracted key is looked up with \<open>find\<close>, the first field of
  that name; a key that names no field contributes nothing.
\<close>

definition isFormComplete :: "FormDefinition \<Rightarrow> Session \<Rightarrow> jsvalue \<Rightarrow> error + bool" where
  "isFormComplete form session extractedFields' =
    (let existingFieldIds = set (map fieldId (session_fields session)) in
     case Object_keys extractedFields' of
       Inl e \<Rightarrow> Inl e
     | Inr names \<Rightarrow>
        (let found = map (\<lambda>name. map_option field_id
                            (find (\<lambda>f. field_name f = name) (form_fields form))) names;
             newFieldIds = set (map the (filter (\<lambda>i. i \<noteq> None) found));
             allCollectedFieldIds = existingFieldIds \<union> newFieldIds;
             requiredFields = filter required (form_fields form)
         in Inr (list_all (\<lambda>f. field_id f \<in> allCollectedFieldIds) requiredFields)))"


section \<open>The context builder (\<open>orchestrator/prompt-builder.ts\<close>, \<open>buildSystemPrompt\<close>)\<close>

text \<open>
  The template literal of \<open>buildSystemPrompt\<close> is written as its lines, joined by line
  feeds. An optional description is used when it is present and not empty.
\<close>

definition buildConversationHistory :: "Session \<Rightarrow> LlmMessage list" where
  "buildConversationHistory session =
     map (\<lambda>turn. \<lparr>role = (if turn_role turn = USER then User else Assistant),
                    content = turn_content turn\<rparr>)
       (turns session)"

fun FieldType_string :: "FieldType \<Rightarrow> jsstring" where
  "FieldType_string TEXT = js ''TEXT''"
| "FieldType_string EMAIL = js ''EMAIL''"
| "FieldType_string PHONE = js ''PHONE''"
| "FieldType_string NUMBER = js ''NUMBER''"
| "FieldType_string DATE = js ''DATE''"
| "FieldType_string ENUM = js ''ENUM''"
| "FieldType_string LONG_TEXT = js ''LONG_TEXT''"

definition buildSystemPrompt :: "runtime \<Rightarrow> FormDefinition \<Rightarrow> Session \<Rightarrow> jsstring" where
  "buildSystemPrompt rt form session =
     (let formInfo = js ''Form: '' @ form_name form
            @ (case form_description form of
                 None \<Rightarrow> []
               | Some d \<Rightarrow> if d \<noteq> [] then [0xA] @ js ''Description: '' @ d else []);
          fieldsInfo = join [0xA]
            (map (\<lambda>field. js ''- '' @ label field @ js '' ('' @ field_name field @ js '', ''
                    @ FieldType_string (type field) @ js '')''
                    @ (if required field then js '' [REQUIRED]'' else js '' [OPTIONAL]'')
                    @ (case field_description field of
                         None \<Rightarrow> []
                       | Some d \<Rightarrow> if d \<noteq> [] then js '': '' @ d else []))
               (form_fields form));
          collectedInfo =
            (if 0 < length (session_fields session)
             then [0xA, 0xA] @ js ''Already Collected:'' @ [0xA]
               @ join [0xA]
                   (map (\<lambda>sf. js ''- '' @ fieldId sf @ js '': ''
                           @ (if value sf \<noteq> Null then js_String rt (value sf) else js ''null''))
                      (session_fields session))
             else [])
      in join [0xA]
           [js ''You are a conversational form assistant collecting information for the following form:'',
            [],
            formInfo,
            [],
            js ''Fields to collect:'',
            fieldsInfo @ collectedInfo,
            [],
            js ''Your task:'',
            js ''1. Extract any field values mentioned in the user's message'',
            js ''2. Respond naturally and ask for the next missing required field'',
            js ''3. Return your response in JSON format:'',
            [],
            js ''{'',
            js ''  \"botResponse\": \"Your natural language response to the user\",'',
            js ''  \"extractedFields\": {'',
            js ''    \"fieldName\": \"extractedValue\"'',
            js ''  }'',
            js ''}'',
            [],
            js ''Important:'',
            js ''- Only extract fields that are explicitly mentioned in the form definition'',
            js ''- Use exact field names from the form definition'',
            js ''- If no new fields can be extracted, return empty extractedFields object'',
            []])"

section \<open>The response interpreter (\<open>parseExtractedFields\<close>)\<close>

text \<open>
  \<open>truthy\<close> is \<open>ToBoolean\<close>, \<open>typeof_object\<close> is \<open>typeof v === 'object'\<close>, \<open>has_property\<close>
  is the operator \<open>in\<close> and \<open>get_property\<close> a property read, on the values \<open>JSON.parse\<close>
  returns. The prototypes are left out: they have neither of the two names the source asks
  for. The loop over the keys throws at the first key that is no field name.
\<close>

fun truthy :: "jsvalue \<Rightarrow> bool" where
  "truthy Undefined = False"
| "truthy Null = False"
| "truthy (Bool b) = b"
| "truthy (Num n) = (n \<noteq> NaN \<and> n \<noteq> Fin 0)"
| "truthy (Str s) = (s \<noteq> [])"
| "truthy v = True"

fun typeof_object :: "jsvalue \<Rightarrow> bool" where
  "typeof_object Null = True"
| "typeof_object (DateV d) = True"
| "typeof_object (Arr vs) = True"
| "typeof_object (Obj ps) = True"
| "typeof_object v = False"

fun has_property :: "jsstring \<Rightarrow> jsvalue \<Rightarrow> bool" where
  "has_property k (Obj ps) = (k \<in> fst ` set ps)"
| "has_property k (Arr vs) = (k \<in> set (index_keys (length vs)) \<or> k = js ''length'')"
| "has_property k v = False"

fun get_property :: "jsvalue \<Rightarrow> jsstring \<Rightarrow> jsvalue" where
  "get_property (Obj ps) k = (case map_of ps k of None \<Rightarrow> Undefined | Some v \<Rightarrow> v)"
| "get_property v k = Undefined"

record ParsedResponse =
  parsed_botResponse :: jsvalue
  parsed_extractedFields :: jsvalue

definition parseExtractedFields :: "runtime \<Rightarrow> jsstring \<Rightarrow> FormDefinition \<Rightarrow> error + ParsedResponse" where
  "parseExtractedFields rt llmResponse form =
     (case JSON_parse llmResponse of
        None \<Rightarrow>
          Inl (ClientError (js ''LLM returned invalid JSON'') 400 (js ''INVALID_LLM_RESPONSE'')
                 [(js ''response'', Str llmResponse),
                  (js ''parseError'', Str (jsonErrorMessage rt llmResponse))])
      | Some parsed \<Rightarrow>
          (if \<not> truthy parsed \<or> \<not> typeof_object parsed
              \<or> \<not> has_property (js ''botResponse'') parsed
              \<or> \<not> has_property (js ''extractedFields'') parsed
           then Inl (ClientError
                  (js ''LLM response missing required fields (botResponse, extractedFields)'')
                  400 (js ''INVALID_LLM_RESPONSE'') [(js ''response'', Str llmResponse)])
           else
             (let response = \<lparr>parsed_botResponse = get_property parsed (js ''botResponse''),
                    parsed_extractedFields = get_property parsed (js ''extractedFields'')\<rparr>;
                  validFieldNames = set (map field_name (form_fields form))
              in case Object_keys (parsed_extractedFields response) of
                   Inl e \<Rightarrow> Inl e
                 | Inr names \<Rightarrow>
                    (case find (\<lambda>fieldName. fieldName \<notin> validFieldNames) names of
                       Some fieldName \<Rightarrow>
                         Inl (ClientError (js ''Field not in form definition'') 400
                                (js ''UNKNOWN_FIELD'')
                                [(js ''fieldName'', Str fieldName),
                                 (js ''formId'', Str (form_id form))])
                     | None \<Rightarrow> Inr response))))"

section \<open>The turn orchestrator (\<open>runLlmStep\<close>)\<close>

text \<open>
  The model client is a function from the message sequence to a reply or the error it
  rejects with. \<open>new Date()\<close> reads the clock; the time read is the parameter \<open>now\<close>.
  \<open>validateExtracted\<close> is the loop over \<open>Object.entries(extractedFields)\<close>: the field of a
  key is taken from \<open>fieldMap\<close>, a \<open>Map\<close> built from the fields in order, so of several
  fields with one name the last; a missing field is a \<open>TypeError\<close> at \<open>field.required\<close>.
  \<open>hypotheticalFields\<close> is the \<open>map\<close> that builds the fields added to the hypothetical
  session; \<open>find(...)!.id\<close> on a key that names no field is a \<open>TypeError\<close>.
\<close>

fun validateExtracted :: "runtime \<Rightarrow> FormDefinition \<Rightarrow> (jsstring \<times> jsvalue) list \<Rightarrow> error option" where
  "validateExtracted rt form [] = None"
| "validateExtracted rt form ((fieldName, fieldValue) # rest) =
     (case map_of (rev (map (\<lambda>f. (field_name f, f)) (form_fields form))) fieldName of
        None \<Rightarrow> Some TypeError
      | Some fieldDef \<Rightarrow>
         (case validateField rt fieldDef fieldValue of
            Invalid reason \<Rightarrow>
              Some (ClientError reason 400 (js ''VALIDATION_ERROR'')
                      [(js ''fieldName'', Str fieldName), (js ''value'', fieldValue),
                       (js ''formId'', Str (form_id form))])
          | Valid \<Rightarrow> validateExtracted rt form rest))"

fun hypotheticalFields :: "FormDefinition \<Rightarrow> Date \<Rightarrow> (jsstring \<times> jsvalue) list \<Rightarrow> error + SessionField list" where
  "hypotheticalFields form now [] = Inr []"
| "hypotheticalFields form now ((name, v) # rest) =
     (case find (\<lambda>f. field_name f = name) (form_fields form) of
        None \<Rightarrow> Inl TypeError
      | Some f \<Rightarrow>
         (case hypotheticalFields form now rest of
            Inl e \<Rightarrow> Inl e
          | Inr sfs \<Rightarrow> Inr (\<lparr>fieldId = field_id f, value = v, collectedAt = now\<rparr> # sfs)))"

definition runLlmStep ::
  "runtime \<Rightarrow> Date \<Rightarrow> FormDefinition \<Rightarrow> Session \<Rightarrow> jsstring \<Rightarrow> LlmClient \<Rightarrow> error + OrchestratorResult" where
  "runLlmStep rt now form session userMessage llmClient =
     (let systemPrompt = buildSystemPrompt rt form session;
          conversationHistory = buildConversationHistory session;
          messages = [\<lparr>role = System, content = systemPrompt\<rparr>] @ conversationHistory
                       @ [\<lparr>role = User, content = userMessage\<rparr>]
      in case llmClient messages of
           Inl e \<Rightarrow> Inl e
         | Inr llmResponse \<Rightarrow>
      (case parseExtractedFields rt (response_content llmResponse) form of
           Inl e \<Rightarrow> Inl e
         | Inr response \<Rightarrow>
      (case Object_entries (parsed_extractedFields response) of
           Inl e \<Rightarrow> Inl e
         | Inr entries \<Rightarrow>
      (case validateExtracted rt form entries of
           Some e \<Rightarrow> Inl e
         | None \<Rightarrow>
      (case isFormComplete form session (parsed_extractedFields response) of
           Inl e \<Rightarrow> Inl e
         | Inr completed \<Rightarrow>
      (case hypotheticalFields form now entries of
           Inl e \<Rightarrow> Inl e
         | Inr newFields \<Rightarrow>
          (let hypotheticalSession =
                 session\<lparr>session_fields := session_fields session @ newFields\<rparr>;
               next = (if completed then None else determineNextField form hypotheticalSession)
           in Inr \<lparr>botResponse = parsed_botResponse response,
                   extractedFields = parsed_extractedFields response,
                   isComplete = completed, nextField = next\<rparr>)))))))"

section \<open>Notions of the specification\<close>

text \<open>
  The fields that a set of names selects, taking the first field of each name: the
  fields ``named by'' the extracted-values map.
\<close>

definition named_first :: "FormField list \<Rightarrow> jsstring set \<Rightarrow> FormField set" where
  "named_first fs ns =
    {fs ! i | i. i < length fs \<and> field_name (fs ! i) \<in> ns \<and>
                 (\<forall>j<i. field_name (fs ! j) \<noteq> field_name (fs ! i))}"

text \<open>
  The language of a regular expression, and the shape the specification gives an e-mail
  address: a run of code units that are neither white space nor \<open>@\<close>, an \<open>@\<close>, a
  second run, a dot and a third run.
\<close>

inductive_set star :: "'a list set \<Rightarrow> 'a list set" for L :: "'a list set" where
  star_nil: "[] \<in> star L"
| star_app: "u \<in> L \<Longrightarrow> v \<in> star L \<Longrightarrow> u @ v \<in> star L"

fun lang :: "'a rx \<Rightarrow> 'a list set" where
  "lang Nothing = {}"
| "lang Empty = {[]}"
| "lang (Class P) = {[c] | c. P c}"
| "lang (Alt r s) = lang r \<union> lang s"
| "lang (Seq r s) = {u @ v | u v. u \<in> lang r \<and> v \<in> lang s}"
| "lang (Star r) = star (lang r)"

definition email_run :: "jsstring \<Rightarrow> bool" where
  "email_run w \<longleftrightarrow> w \<noteq> [] \<and> (\<forall>c\<in>set w. \<not> is_space c \<and> c \<noteq> 0x40)"

definition email_shape :: "jsstring \<Rightarrow> bool" where
  "email_shape s \<longleftrightarrow>
     (\<exists>local domain tld. s = local @ [0x40] @ domain @ [0x2E] @ tld
        \<and> email_run local \<and> email_run domain \<and> email_run tld)"

text \<open>
  The shape \<open>YYYY-MM-DD[...]\<close> of a date string, and the year, month and day its digits
  denote: the first four digits, the two after the first hyphen, and the digits that
  follow the second hyphen.
\<close>

definition iso_shape :: "jsstring \<Rightarrow> bool" where
  "iso_shape s \<longleftrightarrow>
     (\<exists>y m d rest. s = y @ [0x2D] @ m @ [0x2D] @ d @ rest
        \<and> length y = 4 \<and> length m = 2 \<and> length d = 2
        \<and> (\<forall>c\<in>set (y @ m @ d). is_digit c))"

definition iso_year :: "jsstring \<Rightarrow> int" where
  "iso_year s = int (digits_val (take 4 s))"

definition iso_month :: "jsstring \<Rightarrow> int" where
  "iso_month s = int (digits_val (take 2 (drop 5 s)))"

definition iso_day :: "jsstring \<Rightarrow> int" where
  "iso_day s = int (digits_val (takeWhile is_digit (drop 8 s)))"

text \<open>
  The completion union: the identifiers collected in the session together with the
  identifiers of the fields that the extracted names select. The first field in display
  order among those with a property: no field with the property that stands before it in
  the form has an order as small, and none that stands after it has a smaller one.
\<close>

definition completion_union :: "FormDefinition \<Rightarrow> Session \<Rightarrow> jsstring list \<Rightarrow> jsstring set" where
  "completion_union form session names =
     fieldId ` set (session_fields session)
     \<union> field_id ` named_first (form_fields form) (set names)"

definition first_in_display_order :: "FormField list \<Rightarrow> (FormField \<Rightarrow> bool) \<Rightarrow> FormField \<Rightarrow> bool" where
  "first_in_display_order fs P g \<longleftrightarrow>
     (\<exists>before after. fs = before @ g # after \<and> P g
        \<and> (\<forall>h\<in>set before. P h \<longrightarrow> order g < order h)
        \<and> (\<forall>h\<in>set after. P h \<longrightarrow> order g \<le> order h))"

section \<open>Example data\<close>

text \<open>
  The contact form and the session of \<open>tests/orchestrator/orchestrator.test.ts\<close>
  (``should mark form complete when all required fields collected''), and a form without
  fields.
\<close>

definition example_date :: Date where
  "example_date = Some 1705276800000"

definition name_field :: FormField where
  "name_field = \<lparr>field_id = js ''name'', field_name = js ''name'', label = js ''Full Name'',
     type = TEXT, required = True, validation = None, order = 0, field_description = None\<rparr>"

definition email_field :: FormField where
  "email_field = \<lparr>field_id = js ''email'', field_name = js ''email'', label = js ''Email'',
     type = EMAIL, required = True, validation = None, order = 1, field_description = None\<rparr>"

definition contact_form :: FormDefinition where
  "contact_form = \<lparr>form_id = js ''form1'', form_name = js ''Contact Form'',
     form_description = None, form_fields = [name_field, email_field],
     createdAt = example_date, updatedAt = example_date\<rparr>"

definition empty_form :: FormDefinition where
  "empty_form = \<lparr>form_id = js ''form0'', form_name = js ''Empty Form'',
     form_description = None, form_fields = [],
     createdAt = example_date, updatedAt = example_date\<rparr>"

definition name_collected :: Session where
  "name_collected = \<lparr>session_id = js ''session1'', formId = js ''form1'', status = ACTIVE,
     turns = [],
     session_fields = [\<lparr>fieldId = js ''name'', value = Str (js ''John Doe''),
                         collectedAt = example_date\<rparr>],
     startedAt = example_date, completedAt = None\<rparr>"

text \<open>An optional e-mail field and a bounded number field.\<close>

definition optional_email_field :: FormField where
  "optional_email_field = \<lparr>field_id = js ''f2'', field_name = js ''backupEmail'',
     label = js ''Backup Email'', type = EMAIL, required = False, validation = None, order = 2,
     field_description = None\<rparr>"

definition age_field :: FormField where
  "age_field = \<lparr>field_id = js ''f3'', field_name = js ''age'', label = js ''Age'',
     type = NUMBER, required = True,
     validation = Some \<lparr>rule_min = Some (Fin 18), rule_max = Some (Fin 120), pattern = None,
                         options = None\<rparr>,
     order = 3, field_description = None\<rparr>"

text \<open>A runtime that parses no date beyond the determined form.\<close>

definition quiet_runtime :: runtime where
  "quiet_runtime = \<lparr>dateParseOther = (\<lambda>s. None), dateToString = (\<lambda>t. js ''Invalid Date''),
     numberToString = (\<lambda>q. js ''NaN''), jsonErrorMessage = (\<lambda>s. js ''Unexpected token'')\<rparr>"

text \<open>A runtime whose parser rolls 30 February 2024 forward to 1 March.\<close>

definition rolling_runtime :: runtime where
  "rolling_runtime = quiet_runtime
     \<lparr>dateParseOther := (\<lambda>s. if s = js ''2024-02-30'' then Some 1709251200000 else None)\<rparr>"


definition new_session :: Session where
  "new_session = \<lparr>session_id = js ''session0'', formId = js ''form1'', status = ACTIVE,
     turns = [], session_fields = [], startedAt = example_date, completedAt = None\<rparr>"

definition replying :: "jsstring \<Rightarrow> LlmClient" where
  "replying text = (\<lambda>messages. Inr \<lparr>response_content = text, usage = None\<rparr>)"

definition john_reply :: jsstring where
  "john_reply = js ''{\"botResponse\": \"Thanks John! What is your email?\", \"extractedFields\": {\"name\": \"John Doe\"}}''"

definition email_reply :: jsstring where
  "email_reply = js ''{\"botResponse\": \"Perfect! I have all your information.\", \"extractedFields\": {\"email\": \"john@example.com\"}}''"


definition null_reply :: jsstring where
  "null_reply = js ''{\"botResponse\":\"Thanks!\",\"extractedFields\":null}''"

section \<open>Completion\<close>

lemma new_ids_named_first:
  "set (map the (filter (\<lambda>i. i \<noteq> None)
      (map (\<lambda>name. map_option field_id (find (\<lambda>f. field_name f = name) fs)) names)))
   = field_id ` named_first fs (set names)"
proof -
  have "set (map the (filter (\<lambda>i. i \<noteq> None)
      (map (\<lambda>name. map_option field_id (find (\<lambda>f. field_name f = name) fs)) names)))
     = {field_id g | g n. n \<in> set names \<and> find (\<lambda>f. field_name f = n) fs = Some g}"
    by (force simp: image_iff)
  also have "\<dots> = field_id ` named_first fs (set names)"
    unfolding named_first_def by (auto simp: find_Some_iff image_iff)
  finally show ?thesis .
qed

lemma named_first_distinct:
  assumes "distinct (map field_name fs)"
  shows "named_first fs ns = set (filter (\<lambda>g. field_name g \<in> ns) fs)"
proof -
  have inj: "\<And>i j. i < length fs \<Longrightarrow> j < length fs \<Longrightarrow> field_name (fs ! j) = field_name (fs ! i) \<Longrightarrow> i = j"
    using assms by (metis distinct_conv_nth length_map nth_map)
  show ?thesis
    unfolding named_first_def
    apply (auto simp: in_set_conv_nth)
    by (metis inj less_trans nat_neq_iff)
qed

text \<open>
  C1. The completion flag is true iff every required field's identifier is among the
  identifiers already collected in the session or the identifiers of the fields the
  extracted keys name (of several fields with one name the code takes the first; with
  unique names these are all the fields an extracted key names). A form with no required
  field is complete whatever the session and the extraction.
\<close>

theorem isFormComplete_required_in_union:
  "isFormComplete form session (Obj extracted) =
     Inr (\<forall>f\<in>set (form_fields form). required f \<longrightarrow>
            field_id f \<in> fieldId ` set (session_fields session)
                        \<union> field_id ` named_first (form_fields form) (fst ` set extracted))
   \<and> (distinct (map field_name (form_fields form)) \<longrightarrow>
        named_first (form_fields form) (fst ` set extracted)
          = set (filter (\<lambda>g. field_name g \<in> fst ` set extracted) (form_fields form)))
   \<and> ((\<forall>f\<in>set (form_fields form). \<not> required f) \<longrightarrow>
        isFormComplete form session (Obj extracted) = Inr True)"
proof (intro conjI impI)
  show main: "isFormComplete form session (Obj extracted) =
     Inr (\<forall>f\<in>set (form_fields form). required f \<longrightarrow>
            field_id f \<in> fieldId ` set (session_fields session)
                        \<union> field_id ` named_first (form_fields form) (fst ` set extracted))"
    unfolding isFormComplete_def Object_keys_def Let_def new_ids_named_first
    by (auto simp: list_all_iff)
  show "named_first (form_fields form) (fst ` set extracted)
          = set (filter (\<lambda>g. field_name g \<in> fst ` set extracted) (form_fields form))"
    if "distinct (map field_name (form_fields form))"
    using that by (rule named_first_distinct)
  show "isFormComplete form session (Obj extracted) = Inr True"
    if "\<forall>f\<in>set (form_fields form). \<not> required f"
    using that unfolding main by simp
qed

theorem isFormComplete_required_in_union_witness:
  "distinct (map field_name (form_fields contact_form))
   \<and> isFormComplete contact_form name_collected
         (Obj [(js ''email'', Str (js ''john@example.com''))]) = Inr True
   \<and> isFormComplete contact_form name_collected (Obj []) = Inr False
   \<and> form_fields empty_form = []
   \<and> isFormComplete empty_form name_collected (Obj []) = Inr True"
proof -
  note defs = name_field_def email_field_def contact_form_def empty_form_def
    name_collected_def js_def
  have d: "distinct (map field_name (form_fields contact_form))"
    by (simp add: defs)
  have e: "form_fields empty_form = []"
    by (simp add: defs)
  note a = isFormComplete_required_in_union [of contact_form name_collected
      "[(js ''email'', Str (js ''john@example.com''))]"]
  note b = isFormComplete_required_in_union [of contact_form name_collected "[]"]
  note c = isFormComplete_required_in_union [of empty_form name_collected "[]"]
  have a1: "isFormComplete contact_form name_collected
         (Obj [(js ''email'', Str (js ''john@example.com''))]) = Inr True"
    unfolding a [THEN conjunct1] a [THEN conjunct2, THEN conjunct1, rule_format, OF d]
    by (simp add: defs)
  have b1: "isFormComplete contact_form name_collected (Obj []) = Inr False"
    unfolding b [THEN conjunct1] b [THEN conjunct2, THEN conjunct1, rule_format, OF d]
    by (simp add: defs)
  have c1: "isFormComplete empty_form name_collected (Obj []) = Inr True"
    using c [THEN conjunct2, THEN conjunct2] e by simp
  from d a1 b1 e c1 show ?thesis by blast
qed

section \<open>Regular expressions: the matcher decides the language\<close>

lemma nullable_lang: "nullable r \<longleftrightarrow> [] \<in> lang r"
  by (induction r) (auto intro: star_nil)

lemma star_Cons_iff:
  "c # s \<in> star L \<longleftrightarrow> (\<exists>u v. s = u @ v \<and> c # u \<in> L \<and> v \<in> star L)"
proof
  have "x \<in> star L \<Longrightarrow> x = c # s \<Longrightarrow> \<exists>u v. s = u @ v \<and> c # u \<in> L \<and> v \<in> star L"
    for x
  proof (induction arbitrary: s rule: star.induct)
    case star_nil
    then show ?case by simp
  next
    case (star_app u v)
    show ?case
    proof (cases u)
      case Nil
      with star_app show ?thesis by simp
    next
      case (Cons a u')
      with star_app.prems have "a = c" "s = u' @ v" by simp_all
      with Cons star_app.hyps show ?thesis by blast
    qed
  qed
  then show "c # s \<in> star L \<Longrightarrow> \<exists>u v. s = u @ v \<and> c # u \<in> L \<and> v \<in> star L"
    by blast
next
  assume "\<exists>u v. s = u @ v \<and> c # u \<in> L \<and> v \<in> star L"
  then obtain u v where "s = u @ v" "c # u \<in> L" "v \<in> star L" by blast
  then have "(c # u) @ v \<in> star L" by (intro star_app)
  with \<open>s = u @ v\<close> show "c # s \<in> star L" by simp
qed

lemma deriv_lang: "s \<in> lang (deriv c r) \<longleftrightarrow> c # s \<in> lang r"
proof (induction r arbitrary: s)
  case (Seq r1 r2)
  have "c # s \<in> lang (Seq r1 r2) \<longleftrightarrow>
        ([] \<in> lang r1 \<and> c # s \<in> lang r2)
        \<or> (\<exists>u v. s = u @ v \<and> c # u \<in> lang r1 \<and> v \<in> lang r2)"
    by (auto simp: Cons_eq_append_conv)
  with Seq show ?case
    by (auto simp: nullable_lang)
next
  case (Star r)
  then show ?case by (auto simp: star_Cons_iff)
qed auto

lemma matches_lang: "matches r s \<longleftrightarrow> s \<in> lang r"
  by (induction s arbitrary: r) (simp_all add: nullable_lang deriv_lang)

lemma star_Class: "star {[c] | c. P c} = {w. \<forall>c\<in>set w. P c}"
proof (intro set_eqI iffI)
  fix w assume "w \<in> star {[c] | c. P c}"
  then show "w \<in> {w. \<forall>c\<in>set w. P c}"
    by (induction rule: star.induct) auto
next
  fix w assume "w \<in> {w. \<forall>c\<in>set w. P c}"
  then have "\<forall>c\<in>set w. P c" by simp
  then show "w \<in> star {[c] | c. P c}"
  proof (induction w)
    case Nil
    show ?case by (rule star_nil)
  next
    case (Cons a w)
    then have "[a] \<in> {[c] | c. P c}" "w \<in> star {[c] | c. P c}" by auto
    then have "[a] @ w \<in> star {[c] | c. P c}" by (rule star_app)
    then show ?case by simp
  qed
qed

lemma lang_Plus1_Class: "lang (Plus1 (Class P)) = {w. w \<noteq> [] \<and> (\<forall>c\<in>set w. P c)}"
proof (intro set_eqI iffI)
  fix w assume "w \<in> lang (Plus1 (Class P))"
  then show "w \<in> {w. w \<noteq> [] \<and> (\<forall>c\<in>set w. P c)}"
    by (auto simp: Plus1_def star_Class)
next
  fix w assume "w \<in> {w. w \<noteq> [] \<and> (\<forall>c\<in>set w. P c)}"
  then obtain a v where w: "w = a # v" and a: "P a" and v: "\<forall>c\<in>set v. P c"
    by (cases w) auto
  have "[a] @ v \<in> {u @ v | u v. u \<in> {[c] | c. P c} \<and> v \<in> {w. \<forall>c\<in>set w. P c}}"
    using a v by blast
  then show "w \<in> lang (Plus1 (Class P))"
    by (simp add: w Plus1_def star_Class)
qed

lemma test_EMAIL_REGEX: "test_whole EMAIL_REGEX s \<longleftrightarrow> email_shape s"
proof -
  have "test_whole EMAIL_REGEX s \<longleftrightarrow> s \<in> lang EMAIL_REGEX"
    by (simp add: test_whole_def matches_lang)
  also have "\<dots> \<longleftrightarrow> email_shape s"
    unfolding EMAIL_REGEX_def email_shape_def email_run_def lang.simps(5) lang_Plus1_Class
    by (simp only: lang.simps) (auto, blast)
  finally show ?thesis .
qed

lemma trim_Nil: "trim [] = []"
  by (simp add: trim_def)

section \<open>E-mail addresses\<close>

text \<open>
  C7. The e-mail validator succeeds exactly when the trimmed value is not empty and the
  value has the shape local-part, \<open>@\<close>, domain, dot, top-level part, each a non-empty
  run without white space and \<open>@\<close>; every other string fails with the reason
  ``Invalid email format'', as do the strings the specification lists.
\<close>

theorem validateEmail_shape:
  "(\<forall>s. validateEmail s =
       (if trim s \<noteq> [] \<and> email_shape s then Valid
        else Invalid (js ''Invalid email format'')))
   \<and> validateEmail (js ''user@example.com'') = Valid
   \<and> validateEmail (js ''user+tag@example.com'') = Valid
   \<and> validateEmail (js ''userexample.com'') = Invalid (js ''Invalid email format'')
   \<and> validateEmail (js ''user@'') = Invalid (js ''Invalid email format'')
   \<and> validateEmail (js ''@example.com'') = Invalid (js ''Invalid email format'')
   \<and> validateEmail (js '''') = Invalid (js ''Invalid email format'')"
proof (intro conjI allI)
  fix s
  show "validateEmail s =
       (if trim s \<noteq> [] \<and> email_shape s then Valid
        else Invalid (js ''Invalid email format''))"
    by (auto simp: validateEmail_def test_EMAIL_REGEX trim_Nil)
qed (simp_all add: validateEmail_def test_whole_def EMAIL_REGEX_def Plus1_def js_def
       is_space_def trim_def)

theorem validateEmail_shape_witness:
  "validateEmail (js ''john@example.com'') = Valid
   \<and> trim (js ''john@example.com'') \<noteq> []
   \<and> email_shape (js ''john@example.com'')"
proof -
  have v: "validateEmail (js ''john@example.com'') = Valid"
    by (simp add: validateEmail_def test_whole_def EMAIL_REGEX_def Plus1_def js_def
          is_space_def trim_def)
  from validateEmail_shape have
    "validateEmail (js ''john@example.com'') =
       (if trim (js ''john@example.com'') \<noteq> [] \<and> email_shape (js ''john@example.com'')
        then Valid else Invalid (js ''Invalid email format''))"
    by blast
  with v show ?thesis
    by (simp split: if_splits)
qed

section \<open>The dispatcher\<close>

text \<open>
  C5. An absent value (\<open>null\<close> or \<open>undefined\<close>) fails with ``Field is required'' on a
  required field and succeeds on an optional one: \<open>checkRequired\<close> decides, so the result
  depends on no type validator (nor on the field's type, its rules or the runtime).
\<close>

theorem validateField_absent:
  "v = Null \<or> v = Undefined \<Longrightarrow>
     checkRequired field v = Some (if required field then Invalid (js ''Field is required'') else Valid)
     \<and> validateField rt field v = (if required field then Invalid (js ''Field is required'') else Valid)"
  by (auto simp: validateField_def checkRequired_def)

theorem validateField_absent_witness:
  "validateField quiet_runtime optional_email_field Null = Valid
   \<and> validateEmail (js_String quiet_runtime Null) = Invalid (js ''Invalid email format'')
   \<and> validateField quiet_runtime name_field Undefined = Invalid (js ''Field is required'')"
proof -
  have "validateField quiet_runtime optional_email_field Null = Valid"
    using validateField_absent [of Null optional_email_field quiet_runtime]
    by (simp add: optional_email_field_def)
  moreover have "validateField quiet_runtime name_field Undefined = Invalid (js ''Field is required'')"
    using validateField_absent [of Undefined name_field quiet_runtime]
    by (simp add: name_field_def)
  moreover have "validateEmail (js_String quiet_runtime Null) = Invalid (js ''Invalid email format'')"
    by (simp add: validateEmail_def test_whole_def EMAIL_REGEX_def Plus1_def js_def
          is_space_def trim_def)
  ultimately show ?thesis by blast
qed

lemma num_less_NaN: "\<not> num_less NaN y" "\<not> num_less x NaN"
  by (cases x; simp)+

text \<open>
  C9. On a NUMBER field, whatever its bounds, a string that does not coerce to a number
  (\<open>Number\<close> gives NaN) validates: no comparison with NaN holds, so \<open>validateNumber\<close>
  reports no violation for NaN.
\<close>

theorem validateField_NUMBER_not_numeric:
  "(\<forall>rmin rmax. validateNumber rt NaN rmin rmax = Valid)
   \<and> (type field = NUMBER \<longrightarrow> StringToNumber s = NaN \<longrightarrow>
        validateField rt field (Str s) = Valid)"
  by (auto simp: validateField_def checkRequired_def validateNumberField_def validateNumber_def
        num_less_NaN split: option.splits)

theorem validateField_NUMBER_not_numeric_witness:
  "type age_field = NUMBER \<and> StringToNumber (js ''abc'') = NaN
   \<and> validateField quiet_runtime age_field (Str (js ''abc'')) = Valid"
proof -
  have t: "type age_field = NUMBER" by (simp add: age_field_def)
  have n: "StringToNumber (js ''abc'') = NaN"
    by (simp add: StringToNumber_def unsigned_decimal_def trim_def is_space_def is_digit_def
          js_def)
  from validateField_NUMBER_not_numeric [of quiet_runtime age_field "js ''abc''"] t n
  show ?thesis by blast
qed

section \<open>Dates\<close>

lemma lang_SeqI: "u \<in> lang r \<Longrightarrow> v \<in> lang s \<Longrightarrow> u @ v \<in> lang (Seq r s)"
  by auto

lemma lang_SeqE:
  assumes "w \<in> lang (Seq r s)"
  obtains u v where "w = u @ v" "u \<in> lang r" "v \<in> lang s"
  using assms by auto

lemma lang_Times_Class:
  "lang (Times n (Class P)) = {w. length w = n \<and> (\<forall>c\<in>set w. P c)}"
proof (induction n)
  case 0
  show ?case by auto
next
  case (Suc n)
  show ?case
  proof (intro set_eqI iffI)
    fix w assume "w \<in> lang (Times (Suc n) (Class P))"
    with Suc show "w \<in> {w. length w = Suc n \<and> (\<forall>c\<in>set w. P c)}" by auto
  next
    fix w assume "w \<in> {w. length w = Suc n \<and> (\<forall>c\<in>set w. P c)}"
    then obtain a v where w: "w = [a] @ v" and "P a" "length v = n" "\<forall>c\<in>set v. P c"
      by (cases w) auto
    then have "[a] \<in> lang (Class P)" "v \<in> lang (Times n (Class P))"
      using Suc by auto
    then have "[a] @ v \<in> lang (Seq (Class P) (Times n (Class P)))"
      by (rule lang_SeqI)
    then show "w \<in> lang (Times (Suc n) (Class P))"
      by (simp add: w)
  qed
qed

lemma lang_Star_any: "lang (Star (Class (\<lambda>c. True))) = UNIV"
  using star_Class [of "\<lambda>c. True"] by simp

lemma lang_isoFormat:
  "u \<in> lang isoFormat \<longleftrightarrow>
     (\<exists>y m d. u = y @ [0x2D] @ m @ [0x2D] @ d
        \<and> length y = 4 \<and> length m = 2 \<and> length d = 2
        \<and> (\<forall>c\<in>set (y @ m @ d). is_digit c))"
proof
  assume "u \<in> lang isoFormat"
  then obtain y h1 m h2 d where u: "u = y @ h1 @ m @ h2 @ d"
    and 1: "y \<in> lang (Times 4 (Class is_digit))"
    and 2: "h1 \<in> lang (Class (\<lambda>c. c = 0x2D))"
    and 3: "m \<in> lang (Times 2 (Class is_digit))"
    and 4: "h2 \<in> lang (Class (\<lambda>c. c = 0x2D))" "d \<in> lang (Times 2 (Class is_digit))"
    unfolding isoFormat_def by (elim lang_SeqE) blast
  from 2 4 have h: "h1 = [0x2D]" "h2 = [0x2D]" by auto
  from 1 3 4 have "length y = 4" "length m = 2" "length d = 2"
    "\<forall>c\<in>set (y @ m @ d). is_digit c"
    by (auto simp: lang_Times_Class)
  moreover from u h have "u = y @ [0x2D] @ m @ [0x2D] @ d" by simp
  ultimately show "\<exists>y m d. u = y @ [0x2D] @ m @ [0x2D] @ d
        \<and> length y = 4 \<and> length m = 2 \<and> length d = 2
        \<and> (\<forall>c\<in>set (y @ m @ d). is_digit c)"
    by blast
next
  assume "\<exists>y m d. u = y @ [0x2D] @ m @ [0x2D] @ d
        \<and> length y = 4 \<and> length m = 2 \<and> length d = 2
        \<and> (\<forall>c\<in>set (y @ m @ d). is_digit c)"
  then obtain y m d where u: "u = y @ [0x2D] @ m @ [0x2D] @ d"
    and l: "length y = 4" "length m = 2" "length d = 2"
    and dg: "\<forall>c\<in>set (y @ m @ d). is_digit c"
    by blast
  have "y @ [0x2D] @ m @ [0x2D] @ d \<in> lang isoFormat"
    unfolding isoFormat_def
    using l dg by (intro lang_SeqI) (simp_all add: lang_Times_Class)
  with u show "u \<in> lang isoFormat" by simp
qed

lemma test_isoFormat: "test_start isoFormat s \<longleftrightarrow> iso_shape s"
proof -
  have "test_start isoFormat s \<longleftrightarrow> s \<in> lang (Seq isoFormat (Star (Class (\<lambda>c. True))))"
    by (simp only: test_start_def matches_lang)
  also have "\<dots> \<longleftrightarrow> (\<exists>u v. s = u @ v \<and> u \<in> lang isoFormat)"
    by (simp only: lang.simps(5) lang_Star_any) blast
  also have "\<dots> \<longleftrightarrow> iso_shape s"
  proof
    assume "\<exists>u v. s = u @ v \<and> u \<in> lang isoFormat"
    then obtain u v where "s = u @ v" "u \<in> lang isoFormat" by blast
    then obtain y m d where "s = (y @ [0x2D] @ m @ [0x2D] @ d) @ v"
        "length y = 4" "length m = 2" "length d = 2" "\<forall>c\<in>set (y @ m @ d). is_digit c"
      unfolding lang_isoFormat by blast
    then have "s = y @ [0x2D] @ m @ [0x2D] @ d @ v \<and> length y = 4 \<and> length m = 2
       \<and> length d = 2 \<and> (\<forall>c\<in>set (y @ m @ d). is_digit c)"
      by simp
    then show "iso_shape s" unfolding iso_shape_def by blast
  next
    assume "iso_shape s"
    then obtain y m d rest where s: "s = y @ [0x2D] @ m @ [0x2D] @ d @ rest"
      and r: "length y = 4" "length m = 2" "length d = 2" "\<forall>c\<in>set (y @ m @ d). is_digit c"
      unfolding iso_shape_def by blast
    from r have "y @ [0x2D] @ m @ [0x2D] @ d \<in> lang isoFormat"
      unfolding lang_isoFormat by blast
    moreover from s have "s = (y @ [0x2D] @ m @ [0x2D] @ d) @ rest" by simp
    ultimately show "\<exists>u v. s = u @ v \<and> u \<in> lang isoFormat" by blast
  qed
  finally show ?thesis .
qed

lemma split_on_head: "\<exists>ps. split_on sep s = takeWhile (\<lambda>c. c \<noteq> sep) s # ps"
  by (induction s) (auto split: list.splits)

lemma split_on_prefix: "sep \<notin> set u \<Longrightarrow> split_on sep (u @ sep # v) = u # split_on sep v"
  by (induction u) auto

lemma takeWhile_takeWhile_weaker:
  "(\<And>c. P c \<Longrightarrow> Q c) \<Longrightarrow> takeWhile P (takeWhile Q xs) = takeWhile P xs"
  by (induction xs) auto

lemma is_digit_not_other:
  assumes "is_digit c"
  shows "\<not> is_space c" "c \<noteq> 0x2B" "c \<noteq> 0x2D" "c \<noteq> 0x54"
proof -
  from assms have lo: "0x30 \<le> c" and hi: "c \<le> 0x39" by (simp_all add: is_digit_def)
  show "c \<noteq> 0x2B" "c \<noteq> 0x2D" "c \<noteq> 0x54" using lo hi by auto
  have "\<not> (0x2000 \<le> c)"
  proof
    assume "0x2000 \<le> c"
    from this hi have "(0x2000 :: 16 word) \<le> 0x39" by (rule order_trans)
    then show False by simp
  qed
  then show "\<not> is_space c" using lo hi by (auto simp: is_space_def)
qed

lemma parseInt10_digit:
  "is_digit c \<Longrightarrow> parseInt10 (c # r) = Some (int (digits_val (c # takeWhile is_digit r)))"
  by (simp add: parseInt10_def Let_def is_digit_not_other)

lemma trim_eq_Nil: "trim s = [] \<longleftrightarrow> (\<forall>c\<in>set s. is_space c)"
proof
  assume "trim s = []"
  then have "\<forall>c\<in>set (dropWhile is_space s). is_space c"
    by (simp add: trim_def dropWhile_eq_Nil_conv)
  moreover have "\<forall>c\<in>set (takeWhile is_space s). is_space c"
    by (auto dest: set_takeWhileD)
  moreover have "set s = set (takeWhile is_space s) \<union> set (dropWhile is_space s)"
    by (metis set_append takeWhile_dropWhile_id)
  ultimately show "\<forall>c\<in>set s. is_space c" by blast
next
  assume "\<forall>c\<in>set s. is_space c"
  then have "dropWhile is_space s = []" by (simp add: dropWhile_eq_Nil_conv)
  then show "trim s = []" unfolding trim_def by (simp only: rev.simps dropWhile.simps)
qed

lemma validateIsoDateParts_shape:
  assumes "iso_shape s"
  shows "validateIsoDateParts s (Some t) =
     (if YearFromTime t = iso_year s \<and> MonthFromTime t + 1 = iso_month s
         \<and> DateFromTime t = iso_day s
      then Valid else Invalid (js ''Invalid date format''))"
proof -
  from assms obtain y m d rest where s: "s = y @ [0x2D] @ m @ [0x2D] @ d @ rest"
    and len: "length y = 4" "length m = 2" "length d = 2"
    and dg: "\<forall>c\<in>set (y @ m @ d). is_digit c"
    unfolding iso_shape_def by blast
  from len obtain y0 y' where y: "y = y0 # y'" by (cases y) auto
  from len obtain m0 m' where m: "m = m0 # m'" by (cases m) auto
  from len obtain d0 d' where d: "d = d0 # d'" by (cases d) auto
  define r1 where "r1 = takeWhile (\<lambda>c. c \<noteq> 0x54) rest"
  define r2 where "r2 = takeWhile (\<lambda>c. c \<noteq> 0x2D) r1"
  have noT: "\<forall>c\<in>set (y @ [0x2D] @ m @ [0x2D] @ d). c \<noteq> 0x54"
    using dg is_digit_not_other(4) by auto
  have "takeWhile (\<lambda>c. c \<noteq> 0x54) ((y @ [0x2D] @ m @ [0x2D] @ d) @ rest)
          = (y @ [0x2D] @ m @ [0x2D] @ d) @ r1"
    unfolding r1_def using noT by (intro takeWhile_append2) blast
  then have dp: "takeWhile (\<lambda>c. c \<noteq> 0x54) s = y @ 0x2D # m @ 0x2D # d @ r1"
    by (simp add: s)
  obtain ps where sp1: "split_on 0x54 s = (y @ 0x2D # m @ 0x2D # d @ r1) # ps"
    using split_on_head [of "0x54" s] dp by auto
  have noD: "0x2D \<notin> set y" "0x2D \<notin> set m" "\<forall>c\<in>set d. c \<noteq> 0x2D"
    using dg is_digit_not_other(3) by auto
  have "takeWhile (\<lambda>c. c \<noteq> 0x2D) (d @ r1) = d @ r2"
    unfolding r2_def using noD(3) by (intro takeWhile_append2) blast
  then obtain ps' where sp3: "split_on 0x2D (d @ r1) = (d @ r2) # ps'"
    using split_on_head [of "0x2D" "d @ r1"] by auto
  have sp2: "split_on 0x2D (y @ 0x2D # m @ 0x2D # d @ r1) = y # m # (d @ r2) # ps'"
    using noD by (simp add: split_on_prefix sp3)
  have d0: "is_digit y0" "is_digit m0" "is_digit d0"
    using dg y m d by auto
  have "\<forall>c\<in>set y'. is_digit c" "\<forall>c\<in>set m'. is_digit c"
    using dg y m by auto
  then have ally: "y0 # takeWhile is_digit y' = y" "m0 # takeWhile is_digit m' = m"
    unfolding y m by (simp_all only: takeWhile_eq_all_conv [THEN iffD2])
  have py: "parseInt10 y = Some (int (digits_val y))"
    using parseInt10_digit [OF d0(1), of y'] unfolding ally by (simp only: y)
  have pm: "parseInt10 m = Some (int (digits_val m))"
    using parseInt10_digit [OF d0(2), of m'] unfolding ally by (simp only: m)
  have tw: "takeWhile is_digit r2 = takeWhile is_digit rest"
    unfolding r2_def r1_def
    by (simp add: takeWhile_takeWhile_weaker is_digit_not_other)
  have twd: "\<And>r. takeWhile is_digit (d @ r) = d @ takeWhile is_digit r"
    using dg by (intro takeWhile_append2) auto
  have "parseInt10 (d @ r2) = Some (int (digits_val (takeWhile is_digit (d @ r2))))"
    using parseInt10_digit [OF d0(3), of "d' @ r2"] d0(3) by (simp add: d)
  then have pd: "parseInt10 (d @ r2) = Some (int (digits_val (d @ takeWhile is_digit rest)))"
    by (simp add: twd tw)
  have iy: "iso_year s = int (digits_val y)"
    by (simp add: iso_year_def s len)
  have im: "iso_month s = int (digits_val m)"
    by (simp add: iso_month_def s len)
  have "drop 8 s = d @ rest"
    by (simp add: s len)
  then have idd: "iso_day s = int (digits_val (d @ takeWhile is_digit rest))"
    by (simp add: iso_day_def twd)
  have ne: "y \<noteq> []" "m \<noteq> []" "d \<noteq> []" "y @ 0x2D # m @ 0x2D # d @ r1 \<noteq> []"
    using y m d by auto
  show ?thesis
    unfolding validateIsoDateParts_def sp1 list.case sp2
    using ne
    by (simp add: py pm pd iy im idd strict_ne_def getUTCFullYear_def getUTCMonth_def
          getUTCDate_def Let_def)
qed

lemma iso_shape_not_blank:
  assumes "iso_shape s"
  shows "s \<noteq> []" "trim s \<noteq> []"
proof -
  from assms obtain y m d rest where s: "s = y @ [0x2D] @ m @ [0x2D] @ d @ rest"
    and len: "length y = 4"
    and dg: "\<forall>c\<in>set (y @ m @ d). is_digit c"
    unfolding iso_shape_def by blast
  from len obtain y0 y' where y: "y = y0 # y'" by (cases y) auto
  with dg have "\<not> is_space y0" by (simp add: is_digit_not_other)
  moreover have "y0 \<in> set s" by (simp add: s y)
  ultimately show "trim s \<noteq> []" by (auto simp: trim_eq_Nil)
  show "s \<noteq> []" by (simp add: s y)
qed

lemma validateDate_iso_shape:
  assumes "iso_shape s"
  shows "validateDate rt (AString s) =
     (if \<exists>t. Date_parse rt s = Some t \<and> YearFromTime t = iso_year s
              \<and> MonthFromTime t + 1 = iso_month s \<and> DateFromTime t = iso_day s
      then Valid else Invalid (js ''Invalid date format''))"
proof (cases "Date_parse rt s")
  case None
  then show ?thesis by (simp add: iso_shape_not_blank [OF assms])
next
  case (Some t)
  then show ?thesis
    using assms
    by (simp add: iso_shape_not_blank [OF assms] test_isoFormat validateIsoDateParts_shape)
qed

lemma February_at_most_29: "MonthFromTime t = 1 \<Longrightarrow> DateFromTime t \<le> 29"
  unfolding MonthFromTime_def DateFromTime_def month_starts_def month_start_def Let_def
  by (simp split: if_splits)

lemma Times_numeral: "Times (numeral n) r = Seq r (Times (pred_numeral n) r)"
  by (simp add: numeral_eq_Suc)

lemmas calendar_defs = YearFromTime_def YearFromDay_def Day_def MonthFromTime_def
  DateFromTime_def DayWithinYear_def DayFromYear_def InLeapYear_def month_start_def
  month_starts_def msPerDay_def

lemmas date_parse_defs = Date_parse_def iso_date_only_def MakeDay_def DaysInMonth_def
  DayFromYear_def InLeapYear_def month_start_def month_starts_def msPerDay_def
  digits_val_def digit_val_def is_digit_def js_def Let_def

lemma iso_shape_Feb_30: "iso_shape (js ''2024-02-30'')"
  unfolding test_isoFormat [symmetric]
  by (simp add: test_start_def isoFormat_def is_digit_def js_def Times_numeral)

lemma iso_shape_Jan_15: "iso_shape (js ''2024-01-15'')"
  unfolding test_isoFormat [symmetric]
  by (simp add: test_start_def isoFormat_def is_digit_def js_def Times_numeral)

lemma Feb_30_digits: "iso_month (js ''2024-02-30'') = 2" "iso_day (js ''2024-02-30'') = 30"
  by (simp_all add: iso_month_def iso_day_def digits_val_def digit_val_def is_digit_def js_def)

lemma Jan_15_digits: "iso_year (js ''2024-01-15'') = 2024" "iso_month (js ''2024-01-15'') = 1"
  "iso_day (js ''2024-01-15'') = 15"
  by (simp_all add: iso_year_def iso_month_def iso_day_def digits_val_def digit_val_def
        is_digit_def js_def)

lemma Jan_15_parse: "Date_parse rt (js ''2024-01-15'') = Some 1705276800000"
  by (simp add: date_parse_defs)

lemma Jan_15_calendar:
  "YearFromTime 1705276800000 = 2024" "MonthFromTime 1705276800000 = 0"
  "DateFromTime 1705276800000 = 15"
  by (simp_all add: calendar_defs)

lemma not_a_date_parse: "Date_parse rt (js ''not-a-date'') = dateParseOther rt (js ''not-a-date'')"
  by (simp add: date_parse_defs)

lemma not_a_date_blank: "js ''not-a-date'' \<noteq> []" "trim (js ''not-a-date'') \<noteq> []"
  by (simp_all add: trim_def is_space_def js_def)

text \<open>
  C6. For a string of the shape \<open>YYYY-MM-DD[...]\<close> the date validator succeeds exactly
  when the string parses to a date whose UTC year, month and day equal the year, month and
  day read from the string; every mismatch fails with ``Invalid date format''. A string
  that does not parse fails with the same reason. \<open>2024-02-30\<close> fails whatever the
  runtime's parser makes of it, \<open>not-a-date\<close> fails when the runtime does not parse it,
  and \<open>2024-01-15\<close> succeeds.
\<close>

theorem validateDate_calendar_check:
  "(iso_shape s \<longrightarrow>
      validateDate rt (AString s) =
        (if \<exists>t. Date_parse rt s = Some t \<and> YearFromTime t = iso_year s
                 \<and> MonthFromTime t + 1 = iso_month s \<and> DateFromTime t = iso_day s
         then Valid else Invalid (js ''Invalid date format'')))
   \<and> (Date_parse rt s = None \<longrightarrow>
        validateDate rt (AString s) = Invalid (js ''Invalid date format''))
   \<and> validateDate rt (AString (js ''2024-02-30'')) = Invalid (js ''Invalid date format'')
   \<and> (dateParseOther rt (js ''not-a-date'') = None \<longrightarrow>
        validateDate rt (AString (js ''not-a-date'')) = Invalid (js ''Invalid date format''))
   \<and> validateDate rt (AString (js ''2024-01-15'')) = Valid"
proof (intro conjI impI)
  show "validateDate rt (AString s) =
        (if \<exists>t. Date_parse rt s = Some t \<and> YearFromTime t = iso_year s
                 \<and> MonthFromTime t + 1 = iso_month s \<and> DateFromTime t = iso_day s
         then Valid else Invalid (js ''Invalid date format''))"
    if "iso_shape s"
    using that by (rule validateDate_iso_shape)
  show "validateDate rt (AString s) = Invalid (js ''Invalid date format'')"
    if "Date_parse rt s = None"
    using that by simp
  have "\<not> (MonthFromTime t + 1 = 2 \<and> DateFromTime t = 30)" for t
    using February_at_most_29 [of t] by auto
  then show "validateDate rt (AString (js ''2024-02-30'')) = Invalid (js ''Invalid date format'')"
    by (simp only: validateDate_iso_shape [OF iso_shape_Feb_30] Feb_30_digits) simp
  show "validateDate rt (AString (js ''not-a-date'')) = Invalid (js ''Invalid date format'')"
    if "dateParseOther rt (js ''not-a-date'') = None"
    using that by (simp add: not_a_date_parse not_a_date_blank)
  show "validateDate rt (AString (js ''2024-01-15'')) = Valid"
    by (simp only: validateDate_iso_shape [OF iso_shape_Jan_15] Jan_15_digits Jan_15_parse)
       (simp add: Jan_15_calendar)
qed

theorem validateDate_calendar_check_witness:
  "iso_shape (js ''2024-02-30'')
   \<and> Date_parse rolling_runtime (js ''2024-02-30'') = Some 1709251200000
   \<and> MonthFromTime 1709251200000 + 1 = 3 \<and> DateFromTime 1709251200000 = 1
   \<and> validateDate rolling_runtime (AString (js ''2024-02-30'')) = Invalid (js ''Invalid date format'')
   \<and> Date_parse quiet_runtime (js ''2024-02-30'') = None
   \<and> validateDate quiet_runtime (AString (js ''2024-02-30'')) = Invalid (js ''Invalid date format'')
   \<and> dateParseOther quiet_runtime (js ''not-a-date'') = None
   \<and> validateDate quiet_runtime (AString (js ''not-a-date'')) = Invalid (js ''Invalid date format'')"
proof -
  note r = validateDate_calendar_check [of "js ''2024-02-30''" rolling_runtime]
  note q = validateDate_calendar_check [of "js ''2024-02-30''" quiet_runtime]
  have p: "Date_parse rolling_runtime (js ''2024-02-30'') = Some 1709251200000"
    by (simp add: date_parse_defs rolling_runtime_def quiet_runtime_def)
  have c: "MonthFromTime 1709251200000 + 1 = 3" "DateFromTime 1709251200000 = 1"
    by (simp_all add: calendar_defs)
  have n: "Date_parse quiet_runtime (js ''2024-02-30'') = None"
    by (simp add: date_parse_defs quiet_runtime_def)
  have o: "dateParseOther quiet_runtime (js ''not-a-date'') = None"
    by (simp add: quiet_runtime_def)
  from r iso_shape_Feb_30 have 1:
    "validateDate rolling_runtime (AString (js ''2024-02-30'')) = Invalid (js ''Invalid date format'')"
    by blast
  from q n have 2:
    "validateDate quiet_runtime (AString (js ''2024-02-30'')) = Invalid (js ''Invalid date format'')"
    by blast
  from q o have 3:
    "validateDate quiet_runtime (AString (js ''not-a-date'')) = Invalid (js ''Invalid date format'')"
    by blast
  from iso_shape_Feb_30 p c 1 n 2 o 3 show ?thesis by blast
qed

section \<open>The next field\<close>

subsection \<open>The first match of a stably sorted list\<close>

lemma find_Some_in_set: "find P xs = Some g \<Longrightarrow> g \<in> set xs \<and> P g"
  by (induction xs) (auto split: if_splits)

lemma find_insort_key:
  "sorted (map k ys) \<Longrightarrow>
   find P (insort_key k x ys) =
     (case find P ys of
        None \<Rightarrow> if P x then Some x else None
      | Some g \<Rightarrow> if P x \<and> k x \<le> k g then Some x else Some g)"
proof (induction ys)
  case Nil
  show ?case by simp
next
  case (Cons y ys)
  then have s: "sorted (map k ys)" and le: "\<forall>z\<in>set ys. k y \<le> k z" by auto
  show ?case
  proof (cases "k x \<le> k y")
    case True
    have "k x \<le> k g" if "find P (y # ys) = Some g" for g
    proof -
      from that have "g \<in> set (y # ys)" by (rule find_Some_in_set [THEN conjunct1])
      with le True show ?thesis by auto
    qed
    with True show ?thesis by (auto split: option.splits)
  next
    case False
    with Cons.IH [OF s] show ?thesis by (auto split: option.splits)
  qed
qed

lemma find_sort_key_None: "find P (sort_key k xs) = None \<longleftrightarrow> (\<forall>x\<in>set xs. \<not> P x)"
  by (auto simp: find_None_iff)

lemma find_sort_key_first:
  "find P (sort_key k xs) = Some g \<Longrightarrow>
   \<exists>before after. xs = before @ g # after \<and> P g
      \<and> (\<forall>h\<in>set before. P h \<longrightarrow> k g < k h)
      \<and> (\<forall>h\<in>set after. P h \<longrightarrow> k g \<le> (k h :: int))"
proof (induction xs arbitrary: g)
  case Nil
  then show ?case by simp
next
  case (Cons x xs)
  have f: "find P (sort_key k (x # xs)) =
     (case find P (sort_key k xs) of
        None \<Rightarrow> if P x then Some x else None
      | Some g' \<Rightarrow> if P x \<and> k x \<le> k g' then Some x else Some g')"
    by (simp add: find_insort_key)
  show ?case
  proof (cases "find P (sort_key k xs)")
    case None
    with f Cons.prems have "P x" "g = x" by (auto split: if_splits)
    moreover from None have "\<forall>h\<in>set xs. \<not> P h" by (simp add: find_sort_key_None)
    ultimately have "x # xs = [] @ g # xs \<and> P g \<and> (\<forall>h\<in>set []. P h \<longrightarrow> k g < k h)
        \<and> (\<forall>h\<in>set xs. P h \<longrightarrow> k g \<le> k h)"
      by simp
    then show ?thesis by blast
  next
    case (Some g')
    from Cons.IH [OF Some] obtain b a where xs: "xs = b @ g' # a" and pg: "P g'"
      and bb: "\<forall>h\<in>set b. P h \<longrightarrow> k g' < k h" and aa: "\<forall>h\<in>set a. P h \<longrightarrow> k g' \<le> k h"
      by blast
    show ?thesis
    proof (cases "P x \<and> k x \<le> k g'")
      case True
      with f Some Cons.prems have "g = x" by simp
      moreover have "\<forall>h\<in>set xs. P h \<longrightarrow> k x \<le> k h"
        using True bb aa xs by fastforce
      ultimately have "x # xs = [] @ g # xs \<and> P g \<and> (\<forall>h\<in>set []. P h \<longrightarrow> k g < k h)
        \<and> (\<forall>h\<in>set xs. P h \<longrightarrow> k g \<le> k h)"
        using True by simp
      then show ?thesis by blast
    next
      case False
      with f Some Cons.prems have "g = g'" by simp
      moreover have "P x \<longrightarrow> k g' < k x" using False by auto
      ultimately have "x # xs = (x # b) @ g # a \<and> P g
        \<and> (\<forall>h\<in>set (x # b). P h \<longrightarrow> k g < k h) \<and> (\<forall>h\<in>set a. P h \<longrightarrow> k g \<le> k h)"
        using xs pg bb aa by simp
      then show ?thesis by blast
    qed
  qed
qed

lemma determineNextField_first:
  assumes "determineNextField form session = Some n"
  shows "\<exists>g. n = field_name g \<and>
     first_in_display_order (form_fields form)
       (\<lambda>f. required f \<and> field_id f \<notin> fieldId ` set (session_fields session)) g"
proof -
  from assms obtain g where g: "find (\<lambda>f. required f \<and> field_id f \<notin> fieldId ` set (session_fields session))
      (sort_key order (form_fields form)) = Some g" and n: "n = field_name g"
    by (auto simp: determineNextField_def Let_def)
  from find_sort_key_first [OF g] n show ?thesis
    unfolding first_in_display_order_def by blast
qed

lemma determineNextField_None:
  "determineNextField form session = None \<longleftrightarrow>
     (\<forall>f\<in>set (form_fields form). required f \<longrightarrow> field_id f \<in> fieldId ` set (session_fields session))"
  by (auto simp: determineNextField_def Let_def find_None_iff)

subsection \<open>What a successful turn went through\<close>

lemma runLlmStep_Inr:
  assumes "runLlmStep rt now form session msg llm = Inr result"
  shows "\<exists>(response :: ParsedResponse) entries completed newFields.
    Object_entries (parsed_extractedFields response) = Inr entries
    \<and> isFormComplete form session (parsed_extractedFields response) = Inr completed
    \<and> hypotheticalFields form now entries = Inr newFields
    \<and> result = \<lparr>botResponse = parsed_botResponse response,
               extractedFields = parsed_extractedFields response, isComplete = completed,
               nextField = (if completed then None
                 else determineNextField form
                        (session\<lparr>session_fields := session_fields session @ newFields\<rparr>))\<rparr>"
proof -
  let ?m = "[\<lparr>role = System, content = buildSystemPrompt rt form session\<rparr>]
              @ buildConversationHistory session @ [\<lparr>role = User, content = msg\<rparr>]"
  note a = assms [unfolded runLlmStep_def Let_def]
  obtain reply where r: "llm ?m = Inr reply"
    using a by (cases "llm ?m") auto
  obtain response where p: "parseExtractedFields rt (response_content reply) form = Inr response"
    using a r by (cases "parseExtractedFields rt (response_content reply) form") auto
  obtain entries where e: "Object_entries (parsed_extractedFields response) = Inr entries"
    using a r p by (cases "Object_entries (parsed_extractedFields response)") auto
  have v: "validateExtracted rt form entries = None"
    using a r p e by (cases "validateExtracted rt form entries") auto
  obtain completed where
    c: "isFormComplete form session (parsed_extractedFields response) = Inr completed"
    using a r p e v
    by (cases "isFormComplete form session (parsed_extractedFields response)") auto
  obtain newFields where h: "hypotheticalFields form now entries = Inr newFields"
    using a r p e v c by (cases "hypotheticalFields form now entries") auto
  have res: "result = \<lparr>botResponse = parsed_botResponse response,
               extractedFields = parsed_extractedFields response, isComplete = completed,
               nextField = (if completed then None
                 else determineNextField form
                        (session\<lparr>session_fields := session_fields session @ newFields\<rparr>))\<rparr>"
    using a r p e v c h by simp
  from e c h res show ?thesis by blast
qed

lemma isFormComplete_keys:
  assumes "Object_keys ef = Inr names"
  shows "isFormComplete form session ef =
     Inr (\<forall>f\<in>set (form_fields form). required f \<longrightarrow>
            field_id f \<in> completion_union form session names)"
  unfolding isFormComplete_def Let_def assms sum.case new_ids_named_first completion_union_def
  by (auto simp: list_all_iff)

lemma hypotheticalFields_ids:
  "hypotheticalFields form now es = Inr sfs \<Longrightarrow>
   set (map fieldId sfs) =
     set (map the (filter (\<lambda>i. i \<noteq> None)
       (map (\<lambda>name. map_option field_id (find (\<lambda>f. field_name f = name) (form_fields form)))
          (map fst es))))"
proof (induction es arbitrary: sfs)
  case Nil
  then show ?case by simp
next
  case (Cons e es)
  obtain k v where e: "e = (k, v)" by (cases e)
  from Cons.prems e obtain f rest where f: "find (\<lambda>f. field_name f = k) (form_fields form) = Some f"
    and r: "hypotheticalFields form now es = Inr rest"
    and sfs: "sfs = \<lparr>fieldId = field_id f, value = v, collectedAt = now\<rparr> # rest"
    by (auto split: option.splits sum.splits)
  from Cons.IH [OF r] show ?case
    by (simp add: e f sfs)
qed

lemma hypothetical_union:
  assumes "hypotheticalFields form now es = Inr sfs"
  shows "fieldId ` set (session_fields session @ sfs) = completion_union form session (map fst es)"
proof -
  have "fieldId ` set sfs = set (map fieldId sfs)" by simp
  also have "\<dots> = field_id ` named_first (form_fields form) (set (map fst es))"
    unfolding hypotheticalFields_ids [OF assms] new_ids_named_first ..
  finally show ?thesis
    by (simp add: completion_union_def image_Un)
qed

text \<open>
  C2. A turn that returns a result with the completion flag false carries a next-field
  name: the name of the first field in display order (ascending \<open>order\<close>, fields of equal
  order in the form's sequence) that is required and whose identifier is not in the
  completion union. A result with the completion flag true carries none. The flag itself
  is true iff every required field's identifier is in the union.
\<close>

theorem runLlmStep_next_field:
  assumes "runLlmStep rt now form session msg llm = Inr result"
  shows "\<exists>names. Object_keys (extractedFields result) = Inr names
     \<and> (isComplete result \<longleftrightarrow>
          (\<forall>f\<in>set (form_fields form). required f \<longrightarrow>
             field_id f \<in> completion_union form session names))
     \<and> (isComplete result \<longrightarrow> nextField result = None)
     \<and> (\<not> isComplete result \<longrightarrow>
          (\<exists>g. nextField result = Some (field_name g)
             \<and> first_in_display_order (form_fields form)
                  (\<lambda>f. required f \<and> field_id f \<notin> completion_union form session names) g))"
proof -
  from assms obtain response :: ParsedResponse and entries completed newFields where
    ent: "Object_entries (parsed_extractedFields response) = Inr entries"
    and comp': "isFormComplete form session (parsed_extractedFields response) = Inr completed"
    and hyp: "hypotheticalFields form now entries = Inr newFields"
    and res: "result = \<lparr>botResponse = parsed_botResponse response,
               extractedFields = parsed_extractedFields response, isComplete = completed,
               nextField = (if completed then None
                 else determineNextField form
                        (session\<lparr>session_fields := session_fields session @ newFields\<rparr>))\<rparr>"
    using runLlmStep_Inr by blast
  from res have ef: "extractedFields result = parsed_extractedFields response"
    and ic: "isComplete result = completed"
    and nxt: "nextField result =
       (if isComplete result then None
        else determineNextField form
               (session\<lparr>session_fields := session_fields session @ newFields\<rparr>))"
    by simp_all
  from comp' ic have comp:
    "isFormComplete form session (parsed_extractedFields response) = Inr (isComplete result)"
    by simp
  let ?names = "map fst entries"
  let ?U = "completion_union form session ?names"
  let ?hs = "session\<lparr>session_fields := session_fields session @ newFields\<rparr>"
  have keys: "Object_keys (extractedFields result) = Inr ?names"
    by (simp add: Object_keys_def ef ent)
  have c: "isComplete result \<longleftrightarrow>
      (\<forall>f\<in>set (form_fields form). required f \<longrightarrow> field_id f \<in> ?U)"
    using comp isFormComplete_keys [of "parsed_extractedFields response" ?names form session] keys ef
    by simp
  have U: "fieldId ` set (session_fields ?hs) = ?U"
    using hypothetical_union [OF hyp] by simp
  have n1: "isComplete result \<longrightarrow> nextField result = None"
    by (simp add: nxt)
  have n2: "\<exists>g. nextField result = Some (field_name g)
             \<and> first_in_display_order (form_fields form)
                  (\<lambda>f. required f \<and> field_id f \<notin> ?U) g"
    if nc: "\<not> isComplete result"
  proof -
    from nc c have "determineNextField form ?hs \<noteq> None"
      unfolding determineNextField_None U by blast
    then obtain n where n: "determineNextField form ?hs = Some n" by blast
    from determineNextField_first [OF n] obtain g where "n = field_name g"
      "first_in_display_order (form_fields form) (\<lambda>f. required f \<and> field_id f \<notin> ?U) g"
      unfolding U by blast
    with n nc nxt show ?thesis by auto
  qed
  from keys c n1 n2 show ?thesis by blast
qed

subsection \<open>The clock\<close>

lemma hypotheticalFields_clock:
  "map_sum id (map fieldId) (hypotheticalFields form now es)
     = map_sum id (map fieldId) (hypotheticalFields form now' es)"
  by (induction es) (auto split: option.splits sum.splits)

lemma determineNextField_ids:
  "map fieldId (session_fields s) = map fieldId (session_fields s') \<Longrightarrow>
   determineNextField form s = determineNextField form s'"
  by (simp add: determineNextField_def)

text \<open>
  C8. The result of a turn is a function of the form, the session, the message and the
  model client (and of the runtime): the one thing the orchestrator reads besides its
  arguments is the clock, and the result does not depend on the time read. There is no
  state between invocations, so two invocations with the same inputs agree.
\<close>

theorem runLlmStep_stateless:
  "runLlmStep rt now form session msg llm = runLlmStep rt now' form session msg llm"
proof -
  have key: "(case hypotheticalFields form now es of
           Inl e \<Rightarrow> Inl e
         | Inr newFields \<Rightarrow>
             Inr \<lparr>botResponse = b, extractedFields = x, isComplete = c,
                   nextField = (if c then None else determineNextField form
                      (session\<lparr>session_fields := session_fields session @ newFields\<rparr>))\<rparr>)
      = (case hypotheticalFields form now' es of
           Inl e \<Rightarrow> Inl e
         | Inr newFields \<Rightarrow>
             Inr \<lparr>botResponse = b, extractedFields = x, isComplete = c,
                   nextField = (if c then None else determineNextField form
                      (session\<lparr>session_fields := session_fields session @ newFields\<rparr>))\<rparr>)"
    for es b x c
    using hypotheticalFields_clock [of form now es now']
    by (cases "hypotheticalFields form now es"; cases "hypotheticalFields form now' es")
       (auto intro!: determineNextField_ids)
  show ?thesis
    unfolding runLlmStep_def Let_def
    by (simp only: key)
qed

section \<open>Fail-fast validation\<close>




section \<open>Runs of the interpreter and of the orchestrator\<close>

lemma null_reply_parse:
  "JSON_parse (js ''{\"botResponse\": \"hi\", \"extractedFields\": null}'')
     = Some (Obj [(js ''botResponse'', Str (js ''hi'')), (js ''extractedFields'', Null)])"
  by code_simp

text \<open>
  C10. The reply \<open>{"botResponse": "hi", "extractedFields": null}\<close> parses and has both
  keys; the interpreter then fails with a \<open>TypeError\<close> at \<open>Object.keys\<close>, which is none
  of the categorized client errors, whatever the form.
\<close>

theorem parseExtractedFields_null_TypeError:
  "\<forall>rt form.
     parseExtractedFields rt (js ''{\"botResponse\": \"hi\", \"extractedFields\": null}'') form
       = Inl TypeError"
  unfolding parseExtractedFields_def null_reply_parse
  by (simp add: Object_keys_def js_def)

theorem parseExtractedFields_null_TypeError_witness:
  "parseExtractedFields quiet_runtime
     (js ''{\"botResponse\": \"hi\", \"extractedFields\": null}'') contact_form = Inl TypeError
   \<and> \<not> is_ClientError TypeError"
  using parseExtractedFields_null_TypeError by simp

text \<open>
  C3. The interpreter has a fifth outcome: on a reply that parses and has both keys, with
  \<open>null\<close> for the extracted values, it fails with the \<open>TypeError\<close>, and so does the
  turn.
\<close>

theorem parseExtractedFields_null_uncategorized:
  "parseExtractedFields quiet_runtime null_reply contact_form = Inl TypeError
   \<and> runLlmStep quiet_runtime example_date contact_form new_session (js ''hello'')
         (replying null_reply) = Inl TypeError"
  by code_simp

theorem parseExtractedFields_null_uncategorized_witness:
  "(case parseExtractedFields quiet_runtime null_reply contact_form of
      Inl e \<Rightarrow> \<not> is_ClientError e | Inr r \<Rightarrow> False)"
  using parseExtractedFields_null_uncategorized by simp

lemma john_run:
  "runLlmStep quiet_runtime example_date contact_form new_session (js ''I am John Doe'')
     (replying john_reply)
   = Inr \<lparr>botResponse = Str (js ''Thanks John! What is your email?''),
          extractedFields = Obj [(js ''name'', Str (js ''John Doe''))],
          isComplete = False, nextField = Some (js ''email'')\<rparr>"
  by code_simp

lemma email_run:
  "runLlmStep quiet_runtime example_date contact_form name_collected
     (js ''My email is john@example.com'') (replying email_reply)
   = Inr \<lparr>botResponse = Str (js ''Perfect! I have all your information.''),
          extractedFields = Obj [(js ''email'', Str (js ''john@example.com''))],
          isComplete = True, nextField = None\<rparr>"
  by code_simp

theorem runLlmStep_next_field_witness:
  "runLlmStep quiet_runtime example_date contact_form new_session (js ''I am John Doe'')
     (replying john_reply)
   = Inr \<lparr>botResponse = Str (js ''Thanks John! What is your email?''),
          extractedFields = Obj [(js ''name'', Str (js ''John Doe''))],
          isComplete = False, nextField = Some (js ''email'')\<rparr>
   \<and> (\<exists>g. field_name g = js ''email''
         \<and> first_in_display_order (form_fields contact_form)
              (\<lambda>f. required f \<and> field_id f \<notin> completion_union contact_form new_session [js ''name''])
              g)
   \<and> runLlmStep quiet_runtime example_date contact_form name_collected
     (js ''My email is john@example.com'') (replying email_reply)
   = Inr \<lparr>botResponse = Str (js ''Perfect! I have all your information.''),
          extractedFields = Obj [(js ''email'', Str (js ''john@example.com''))],
          isComplete = True, nextField = None\<rparr>"
proof -
  let ?r = "\<lparr>botResponse = Str (js ''Thanks John! What is your email?''),
          extractedFields = Obj [(js ''name'', Str (js ''John Doe''))],
          isComplete = False, nextField = Some (js ''email'')\<rparr>"
  from runLlmStep_next_field [OF john_run] obtain names where
    k: "Object_keys (extractedFields ?r) = Inr names"
    and n: "\<not> isComplete ?r \<longrightarrow>
          (\<exists>g. nextField ?r = Some (field_name g)
             \<and> first_in_display_order (form_fields contact_form)
                  (\<lambda>f. required f \<and> field_id f \<notin> completion_union contact_form new_session names) g)"
    by blast
  from k have "names = [js ''name'']" by (simp add: Object_keys_def)
  with n have "\<exists>g. field_name g = js ''email''
         \<and> first_in_display_order (form_fields contact_form)
              (\<lambda>f. required f \<and> field_id f \<notin> completion_union contact_form new_session [js ''name''])
              g"
    by auto
  with john_run email_run show ?thesis by blast
qed



theorem runLlmStep_stateless_witness:
  "runLlmStep quiet_runtime None contact_form new_session (js ''I am John Doe'')
     (replying john_reply)
   = Inr \<lparr>botResponse = Str (js ''Thanks John! What is your email?''),
          extractedFields = Obj [(js ''name'', Str (js ''John Doe''))],
          isComplete = False, nextField = Some (js ''email'')\<rparr>"
  using runLlmStep_stateless [of quiet_runtime None contact_form new_session
      "js ''I am John Doe''" "replying john_reply" example_date] john_run
  by simp

end
